theory Spec2Isabelle
  imports Complex_Main
begin

section \<open>The embedding batch job \<^verbatim>\<open>scripts/generate_embeddings.py\<close>\<close>

text \<open>
  The script reads the rows of the table \<^verbatim>\<open>notes\<close> whose embedding is NULL, asks an
  external provider for the embedding of each row's text and writes it back, one
  transaction per row. Everything outside the script (the process environment, the
  datastore driver, the provider) is explicit here: the datastore is a table with a
  committed state and the open transaction's working state, every call made to the
  driver and to the provider is recorded in the order it is made, and whether a call on
  the driver, a request to the provider or a print raises is read from an oracle.
\<close>

subsection \<open>Data\<close>

text \<open>
  A Python \<^verbatim>\<open>str\<close> is a sequence of characters and \<^verbatim>\<open>len\<close> and slicing count
  characters; one element of a \<^typ>\<open>string\<close> stands for one character. The script
  tells only the line feed from the other characters. A vector of floats is carried from
  the provider to the datastore and never computed on.
\<close>

type_synonym embedding_vec = "real list"
type_synonym timestamp = nat

text \<open>
  One row of \<^verbatim>\<open>notes\<close>. The script names the columns id, title, content, embedding
  and indexed_at; whatever other columns the table has are the record's extension. The
  text columns and the two columns the script writes are nullable.
\<close>

record note_row =
  note_id :: int
  title :: "string option"
  content :: "string option"
  embedding :: "embedding_vec option"
  indexed_at :: "timestamp option"

text \<open>What the script can raise or let through: Python exceptions below \<^verbatim>\<open>Exception\<close>.\<close>

datatype exn =
  ValueError string
  | TypeError string
  | IndexError
  | DriverError string
  | ProviderError string

text \<open>The calls made on the datastore driver, as the script writes them.\<close>

datatype db_call =
  Connect "string option"
  | Cursor
  | ExecuteSelect
  | Fetchall
  | ExecuteUpdate embedding_vec int
  | Commit
  | Rollback
  | CursorClose
  | ConnClose

text \<open>The lines the script prints, one constructor per \<^verbatim>\<open>print\<close> of the source.\<close>

datatype line =
  Found nat
  | Processed int "string option"
  | ErrorProcessing int exn
  | Finished

text \<open>
  The world the script runs in: the table as committed, the table as the open
  transaction sees it, and the three traces.
\<close>

record 'a world =
  committed :: "'a note_row_scheme list"
  working :: "'a note_row_scheme list"
  db_calls :: "db_call list"
  api_calls :: "(string list \<times> string) list"
  stdout :: "line list"

text \<open>
  The outcomes the script does not decide. Every call on the driver can raise:
  \<open>connect_exn\<close> is what \<^verbatim>\<open>psycopg2.connect\<close> raises for a connection string, if
  anything; \<open>cursor_exn k\<close>, \<open>execute_exn k\<close>, \<open>fetchall_exn k\<close>, \<open>commit_exn k\<close>,
  \<open>rollback_exn k\<close> and \<open>close_exn k\<close> are what the call of that name raises when
  \<open>k\<close> driver calls were made before it; \<open>clock k\<close> is the server's \<^verbatim>\<open>NOW()\<close>
  there. \<open>provider k\<close> is the provider's answer to the request made after \<open>k\<close> earlier
  ones: an exception, or the \<^verbatim>\<open>data\<close> list of the response. \<open>print_exn k l\<close> is
  what printing the line \<open>l\<close> raises when \<open>k\<close> lines have been printed.
\<close>

record oracles =
  connect_exn :: "string option \<Rightarrow> exn option"
  cursor_exn :: "nat \<Rightarrow> exn option"
  execute_exn :: "nat \<Rightarrow> exn option"
  fetchall_exn :: "nat \<Rightarrow> exn option"
  commit_exn :: "nat \<Rightarrow> exn option"
  rollback_exn :: "nat \<Rightarrow> exn option"
  close_exn :: "nat \<Rightarrow> exn option"
  clock :: "nat \<Rightarrow> timestamp"
  provider :: "nat \<Rightarrow> string list \<Rightarrow> string \<Rightarrow> exn + embedding_vec list"
  print_exn :: "nat \<Rightarrow> line \<Rightarrow> exn option"

datatype outcome = Returned | Raised exn

type_synonym candidate = "int \<times> string option \<times> string option"

subsection \<open>Strings\<close>

definition newline :: char where
  "newline = CHR 0x0A"

text \<open>\<^verbatim>\<open>text.replace("\n", " ")\<close>: every line feed becomes one space.\<close>

definition replace_newlines :: "string \<Rightarrow> string" where
  "replace_newlines text = map (\<lambda>c. if c = newline then CHR '' '' else c) text"

text \<open>
  How an f-string renders a column value: a string as itself, \<^verbatim>\<open>None\<close> (SQL NULL)
  as the four characters of its name.
\<close>

fun py_str :: "string option \<Rightarrow> string" where
  "py_str None = ''None''"
| "py_str (Some s) = s"

text \<open>\<^verbatim>\<open>f"{title}\n\n{content}"\<close>\<close>

definition full_text :: "string option \<Rightarrow> string option \<Rightarrow> string" where
  "full_text ttl cnt = py_str ttl @ [newline, newline] @ py_str cnt"

text \<open>\<^verbatim>\<open>full_text[:8000]\<close>\<close>

definition truncated_text :: "string option \<Rightarrow> string option \<Rightarrow> string" where
  "truncated_text ttl cnt = take 8000 (full_text ttl cnt)"

subsection \<open>The environment\<close>

text \<open>
  Modelled from the spec: \<^verbatim>\<open>load_dotenv\<close> is the function of the package
  python-dotenv, which is not among the sources. The script calls it with the file name
  only, so its \<^verbatim>\<open>override\<close> parameter keeps its default; the spec's words are that
  the file is consulted only to populate variables not already present in the process
  environment. The file is given as the variables it defines.
\<close>

definition load_dotenv :: "(string \<rightharpoonup> string) \<Rightarrow> (string \<rightharpoonup> string) \<Rightarrow> (string \<rightharpoonup> string)" where
  "load_dotenv dotenv environ =
     (\<lambda>k. case environ k of Some v \<Rightarrow> Some v | None \<Rightarrow> dotenv k)"

text \<open>Python's truth value of \<^verbatim>\<open>os.environ.get(...)\<close>: \<^verbatim>\<open>None\<close> and \<^verbatim>\<open>""\<close> are false.\<close>

fun truthy :: "string option \<Rightarrow> bool" where
  "truthy None = False"
| "truthy (Some s) = (s \<noteq> [])"

subsection \<open>Printing\<close>

text \<open>A \<^verbatim>\<open>print\<close> that raises leaves the output as it was.\<close>

definition print :: "oracles \<Rightarrow> line \<Rightarrow> 'a world \<Rightarrow> 'a world \<times> exn option" where
  "print orc l w =
     (case print_exn orc (length (stdout w)) l of
        Some e \<Rightarrow> (w, Some e)
      | None \<Rightarrow> (w\<lparr>stdout := stdout w @ [l]\<rparr>, None))"

subsection \<open>The provider\<close>

definition default_model :: string where
  "default_model = ''text-embedding-3-small''"

text \<open>
  \<^verbatim>\<open>get_embedding\<close>: replace the line feeds, send the one text with the model name,
  and take \<^verbatim>\<open>.data[0].embedding\<close> of the response; an empty \<^verbatim>\<open>data\<close> raises
  \<^verbatim>\<open>IndexError\<close>.
\<close>

definition get_embedding ::
  "oracles \<Rightarrow> string \<Rightarrow> string \<Rightarrow> 'a world \<Rightarrow> 'a world \<times> (exn + embedding_vec)" where
  "get_embedding orc text model w =
     (let text' = replace_newlines text;
          w' = w\<lparr>api_calls := api_calls w @ [([text'], model)]\<rparr>
      in case provider orc (length (api_calls w)) [text'] model of
           Inl e \<Rightarrow> (w', Inl e)
         | Inr [] \<Rightarrow> (w', Inl IndexError)
         | Inr (d # ds) \<Rightarrow> (w', Inr d))"

subsection \<open>The datastore\<close>

text \<open>
  Every call is recorded, also one that raises. A connection that opens starts with
  nothing pending: it sees the committed table.
\<close>

definition connect :: "oracles \<Rightarrow> string option \<Rightarrow> 'a world \<Rightarrow> 'a world \<times> exn option" where
  "connect orc url w =
     (let w' = w\<lparr>db_calls := db_calls w @ [Connect url]\<rparr>
      in case connect_exn orc url of
           Some e \<Rightarrow> (w', Some e)
         | None \<Rightarrow> (w'\<lparr>working := committed w\<rparr>, None))"

definition cursor :: "oracles \<Rightarrow> 'a world \<Rightarrow> 'a world \<times> exn option" where
  "cursor orc w = (w\<lparr>db_calls := db_calls w @ [Cursor]\<rparr>, cursor_exn orc (length (db_calls w)))"

text \<open>\<^verbatim>\<open>SELECT id, title, content FROM notes WHERE embedding IS NULL\<close>\<close>

definition select_candidates :: "'a note_row_scheme list \<Rightarrow> candidate list" where
  "select_candidates tbl =
     map (\<lambda>r. (note_id r, title r, content r)) (filter (\<lambda>r. embedding r = None) tbl)"

definition execute_select :: "oracles \<Rightarrow> 'a world \<Rightarrow> 'a world \<times> exn option" where
  "execute_select orc w =
     (w\<lparr>db_calls := db_calls w @ [ExecuteSelect]\<rparr>, execute_exn orc (length (db_calls w)))"

definition fetchall :: "oracles \<Rightarrow> 'a world \<Rightarrow> 'a world \<times> (exn + candidate list)" where
  "fetchall orc w =
     (w\<lparr>db_calls := db_calls w @ [Fetchall]\<rparr>,
      case fetchall_exn orc (length (db_calls w)) of
        Some e \<Rightarrow> Inl e
      | None \<Rightarrow> Inr (select_candidates (working w)))"

text \<open>
  \<^verbatim>\<open>UPDATE notes SET embedding = %s, indexed_at = NOW() WHERE id = %s\<close>, as it acts
  on one row of the table.
\<close>

definition set_embedding ::
  "embedding_vec \<Rightarrow> timestamp \<Rightarrow> int \<Rightarrow> 'a note_row_scheme \<Rightarrow> 'a note_row_scheme" where
  "set_embedding emb now nid r =
     (if note_id r = nid then r\<lparr>embedding := Some emb, indexed_at := Some now\<rparr> else r)"

text \<open>A statement that raises changes nothing; one that runs changes the working table.\<close>

definition execute_update ::
  "oracles \<Rightarrow> embedding_vec \<Rightarrow> int \<Rightarrow> 'a world \<Rightarrow> 'a world \<times> exn option" where
  "execute_update orc emb nid w =
     (let k = length (db_calls w);
          w' = w\<lparr>db_calls := db_calls w @ [ExecuteUpdate emb nid]\<rparr>
      in case execute_exn orc k of
           Some e \<Rightarrow> (w', Some e)
         | None \<Rightarrow> (w'\<lparr>working := map (set_embedding emb (clock orc k) nid) (working w)\<rparr>, None))"

definition commit :: "oracles \<Rightarrow> 'a world \<Rightarrow> 'a world \<times> exn option" where
  "commit orc w =
     (let w' = w\<lparr>db_calls := db_calls w @ [Commit]\<rparr>
      in case commit_exn orc (length (db_calls w)) of
           Some e \<Rightarrow> (w', Some e)
         | None \<Rightarrow> (w'\<lparr>committed := working w\<rparr>, None))"

text \<open>A rollback that raises has rolled nothing back.\<close>

definition rollback :: "oracles \<Rightarrow> 'a world \<Rightarrow> 'a world \<times> exn option" where
  "rollback orc w =
     (let w' = w\<lparr>db_calls := db_calls w @ [Rollback]\<rparr>
      in case rollback_exn orc (length (db_calls w)) of
           Some e \<Rightarrow> (w', Some e)
         | None \<Rightarrow> (w'\<lparr>working := committed w\<rparr>, None))"

definition cur_close :: "oracles \<Rightarrow> 'a world \<Rightarrow> 'a world \<times> exn option" where
  "cur_close orc w =
     (w\<lparr>db_calls := db_calls w @ [CursorClose]\<rparr>, close_exn orc (length (db_calls w)))"

definition conn_close :: "oracles \<Rightarrow> 'a world \<Rightarrow> 'a world \<times> exn option" where
  "conn_close orc w =
     (w\<lparr>db_calls := db_calls w @ [ConnClose]\<rparr>, close_exn orc (length (db_calls w)))"

subsection \<open>The loop of \<^verbatim>\<open>process_notes\<close>\<close>

text \<open>
  The statements of the \<^verbatim>\<open>try\<close> that compute and persist the embedding of one
  record: the request text, \<^verbatim>\<open>get_embedding\<close>, the UPDATE and the commit. The result
  is the world they leave and the exception raised, if any; a statement that raises ends
  them there.
\<close>

definition embed_and_persist ::
  "oracles \<Rightarrow> 'a world \<Rightarrow> candidate \<Rightarrow> 'a world \<times> exn option" where
  "embed_and_persist orc w cand =
     (case cand of (nid, ttl, cnt) \<Rightarrow>
        (case get_embedding orc (truncated_text ttl cnt) default_model w of
           (w1, Inl e) \<Rightarrow> (w1, Some e)
         | (w1, Inr emb) \<Rightarrow>
             (case execute_update orc emb nid w1 of
                (w2, Some e) \<Rightarrow> (w2, Some e)
              | (w2, None) \<Rightarrow> commit orc w2)))"

text \<open>
  The whole body of the \<^verbatim>\<open>try\<close>: those statements, then the print of the progress
  line, which is inside the \<^verbatim>\<open>try\<close> as well and comes after the commit.
\<close>

definition try_body :: "oracles \<Rightarrow> 'a world \<Rightarrow> candidate \<Rightarrow> 'a world \<times> exn option" where
  "try_body orc w cand =
     (case embed_and_persist orc w cand of
        (w1, Some e) \<Rightarrow> (w1, Some e)
      | (w1, None) \<Rightarrow> print orc (Processed (fst cand) (fst (snd cand))) w1)"

text \<open>
  The \<^verbatim>\<open>except Exception as e\<close> block: print, then roll back. Nothing protects the
  two statements: what one of them raises leaves the block.
\<close>

definition except_handler :: "oracles \<Rightarrow> int \<Rightarrow> exn \<Rightarrow> 'a world \<Rightarrow> 'a world \<times> exn option" where
  "except_handler orc nid e w =
     (case print orc (ErrorProcessing nid e) w of
        (w1, Some e') \<Rightarrow> (w1, Some e')
      | (w1, None) \<Rightarrow> rollback orc w1)"

text \<open>One iteration of the \<^verbatim>\<open>for\<close> loop, with the exception that leaves it, if any.\<close>

definition process_note :: "oracles \<Rightarrow> 'a world \<Rightarrow> candidate \<Rightarrow> 'a world \<times> exn option" where
  "process_note orc w cand =
     (case try_body orc w cand of
        (w1, Some e) \<Rightarrow> except_handler orc (fst cand) e w1
      | (w1, None) \<Rightarrow> (w1, None))"

text \<open>The loop: an exception that leaves an iteration leaves the loop.\<close>

fun process_loop :: "oracles \<Rightarrow> 'a world \<Rightarrow> candidate list \<Rightarrow> 'a world \<times> exn option" where
  "process_loop orc w [] = (w, None)"
| "process_loop orc w (cand # rest) =
     (case process_note orc w cand of
        (w1, Some e) \<Rightarrow> (w1, Some e)
      | (w1, None) \<Rightarrow> process_loop orc w1 rest)"

subsection \<open>\<^verbatim>\<open>process_notes\<close> and the script\<close>

text \<open>
  The statements after the loop: close the cursor, close the connection, print the last
  line.
\<close>

definition finish :: "oracles \<Rightarrow> 'a world \<Rightarrow> 'a world \<times> outcome" where
  "finish orc w =
     (case cur_close orc w of
        (w1, Some e) \<Rightarrow> (w1, Raised e)
      | (w1, None) \<Rightarrow>
          (case conn_close orc w1 of
             (w2, Some e) \<Rightarrow> (w2, Raised e)
           | (w2, None) \<Rightarrow>
               (case print orc Finished w2 of
                  (w3, Some e) \<Rightarrow> (w3, Raised e)
                | (w3, None) \<Rightarrow> (w3, Returned))))"

text \<open>
  \<^verbatim>\<open>process_notes\<close>: no statement outside the loop is in a \<^verbatim>\<open>try\<close>, so what one
  of them raises, and what leaves the loop, leaves the function.
\<close>

definition process_notes :: "oracles \<Rightarrow> string option \<Rightarrow> 'a world \<Rightarrow> 'a world \<times> outcome" where
  "process_notes orc DATABASE_URL w =
     (case connect orc DATABASE_URL w of
        (w1, Some e) \<Rightarrow> (w1, Raised e)
      | (w1, None) \<Rightarrow>
     (case cursor orc w1 of
        (w2, Some e) \<Rightarrow> (w2, Raised e)
      | (w2, None) \<Rightarrow>
     (case execute_select orc w2 of
        (w3, Some e) \<Rightarrow> (w3, Raised e)
      | (w3, None) \<Rightarrow>
     (case fetchall orc w3 of
        (w4, Inl e) \<Rightarrow> (w4, Raised e)
      | (w4, Inr notes) \<Rightarrow>
     (case print orc (Found (length notes)) w4 of
        (w5, Some e) \<Rightarrow> (w5, Raised e)
      | (w5, None) \<Rightarrow>
     (case process_loop orc w5 notes of
        (w6, Some e) \<Rightarrow> (w6, Raised e)
      | (w6, None) \<Rightarrow> finish orc w6))))))"

definition key_required :: string where
  "key_required = ''OPENAI_API_KEY environment variable is required''"

text \<open>
  The module from its first line, run as a script: load the file, read the two
  variables, raise if the key is missing or empty, then call \<^verbatim>\<open>process_notes\<close>.
  Building the client object from the key makes no call.
\<close>

definition run_script ::
  "oracles \<Rightarrow> (string \<rightharpoonup> string) \<Rightarrow> (string \<rightharpoonup> string) \<Rightarrow> 'a world \<Rightarrow> 'a world \<times> outcome" where
  "run_script orc dotenv environ w =
     (let environ' = load_dotenv dotenv environ;
          DATABASE_URL = environ' ''DATABASE_URL'';
          OPENAI_API_KEY = environ' ''OPENAI_API_KEY''
      in if \<not> truthy OPENAI_API_KEY then (w, Raised (ValueError key_required))
         else process_notes orc DATABASE_URL w)"

text \<open>The interpreter's exit status: 0 when the script ends, 1 on an uncaught exception.\<close>

fun exit_status :: "outcome \<Rightarrow> nat" where
  "exit_status Returned = 0"
| "exit_status (Raised e) = 1"

subsection \<open>Vocabulary of the properties\<close>

text \<open>The request one candidate leads to: the one text the provider receives, and the model.\<close>

definition request_of :: "candidate \<Rightarrow> string list \<times> string" where
  "request_of cand =
     (case cand of (nid, ttl, cnt) \<Rightarrow> ([replace_newlines (truncated_text ttl cnt)], default_model))"

text \<open>
  Two states of one row: equal, or differing in that both embedding and indexed_at have
  been set.
\<close>

definition both_or_neither :: "'a note_row_scheme \<Rightarrow> 'a note_row_scheme \<Rightarrow> bool" where
  "both_or_neither r r' =
     (r' = r \<or> (\<exists>emb t. r' = r\<lparr>embedding := Some emb, indexed_at := Some t\<rparr>))"

text \<open>
  A change of rows that keeps every id, sets the two columns together or not at all, and
  leaves alone the rows whose id is not in \<open>S\<close>.
\<close>

definition touches_only :: "int set \<Rightarrow> ('a note_row_scheme \<Rightarrow> 'a note_row_scheme) \<Rightarrow> bool" where
  "touches_only S f =
     (\<forall>r. note_id (f r) = note_id r \<and> both_or_neither r (f r) \<and> (note_id r \<notin> S \<longrightarrow> f r = r))"

text \<open>The ids the UPDATE statements among some driver calls are addressed to.\<close>

fun updated_ids :: "db_call list \<Rightarrow> int list" where
  "updated_ids [] = []"
| "updated_ids (ExecuteUpdate emb nid # calls) = nid # updated_ids calls"
| "updated_ids (c # calls) = updated_ids calls"

text \<open>
  The handler of the loop runs to its end whenever it is entered: its print and its
  rollback never raise.
\<close>

definition handler_returns :: "oracles \<Rightarrow> bool" where
  "handler_returns orc =
     ((\<forall>k nid e. print_exn orc k (ErrorProcessing nid e) = None) \<and>
      (\<forall>k. rollback_exn orc k = None))"

text \<open>
  The statements of \<^verbatim>\<open>process_notes\<close> outside the loop never raise, from a world
  with \<open>n\<close> driver calls made: connect for the connection string \<open>url\<close>, cursor, the
  SELECT, fetchall, the two closes and the two prints.
\<close>

definition frame_returns :: "oracles \<Rightarrow> string option \<Rightarrow> nat \<Rightarrow> bool" where
  "frame_returns orc url n =
     (connect_exn orc url = None \<and> cursor_exn orc (Suc n) = None \<and>
      execute_exn orc (Suc (Suc n)) = None \<and> fetchall_exn orc (Suc (Suc (Suc n))) = None \<and>
      (\<forall>k. close_exn orc k = None) \<and>
      (\<forall>k m. print_exn orc k (Found m) = None) \<and> (\<forall>k. print_exn orc k Finished = None))"

text \<open>
  The world at the head of the loop when every statement before it has returned: the
  connection is open, and connect, cursor, the SELECT and fetchall are recorded, and the
  number of candidates is printed.
\<close>

definition loop_entry :: "string option \<Rightarrow> 'a world \<Rightarrow> 'a world" where
  "loop_entry url w =
     w\<lparr>working := committed w,
       db_calls := db_calls w @ [Connect url, Cursor, ExecuteSelect, Fetchall],
       stdout := stdout w @ [Found (length (select_candidates (committed w)))]\<rparr>"

subsection \<open>A small table and some behaviours of the outside\<close>

definition example_rows :: "note_row list" where
  "example_rows =
     [\<lparr>note_id = 1, title = Some ''A'', content = Some ''alpha'', embedding = None, indexed_at = None\<rparr>,
      \<lparr>note_id = 2, title = Some ''B'', content = None, embedding = None, indexed_at = None\<rparr>,
      \<lparr>note_id = 3, title = Some ''C'', content = Some ''gamma'', embedding = Some [1, 2],
        indexed_at = Some 5\<rparr>]"

definition example_world :: "unit world" where
  "example_world =
     \<lparr>committed = example_rows, working = example_rows, db_calls = [], api_calls = [], stdout = []\<rparr>"

text \<open>Every call succeeds; the provider answers every request with the same vector.\<close>

definition all_succeed :: oracles where
  "all_succeed =
     \<lparr>connect_exn = (\<lambda>url. None), cursor_exn = (\<lambda>k. None), execute_exn = (\<lambda>k. None),
      fetchall_exn = (\<lambda>k. None), commit_exn = (\<lambda>k. None), rollback_exn = (\<lambda>k. None),
      close_exn = (\<lambda>k. None), clock = (\<lambda>k. 100 + k),
      provider = (\<lambda>k texts model. Inr [[1 / 2, 1 / 4, 1 / 8]]),
      print_exn = (\<lambda>k l. None)\<rparr>"

text \<open>
  The first UPDATE raises: it is the fifth driver call, after connect, cursor, the SELECT
  and fetchall.
\<close>

definition first_update_fails :: oracles where
  "first_update_fails =
     all_succeed\<lparr>execute_exn := (\<lambda>k. if k = 4 then Some (DriverError ''deadlock detected'') else None)\<rparr>"

text \<open>
  The session is lost after the SELECT: the first UPDATE raises, and so does every
  rollback, as the driver does on a closed connection.
\<close>

definition session_lost :: oracles where
  "session_lost =
     all_succeed
       \<lparr>execute_exn :=
          (\<lambda>k. if 4 \<le> k then Some (DriverError ''server closed the connection unexpectedly'')
                else None),
        rollback_exn := (\<lambda>k. Some (DriverError ''connection already closed''))\<rparr>"

text \<open>The driver refuses a missing connection string, as \<^verbatim>\<open>psycopg2.connect(None)\<close> does.\<close>

definition needs_url :: oracles where
  "needs_url =
     all_succeed\<lparr>connect_exn :=
       (\<lambda>url. case url of None \<Rightarrow> Some (TypeError ''missing dsn and no parameters'') | Some u \<Rightarrow> None)\<rparr>"

text \<open>The world at the head of the loop, after connect, cursor, the SELECT and fetchall.\<close>

definition example_loop_entry :: "unit world" where
  "example_loop_entry =
     example_world\<lparr>db_calls := [Connect (Some ''postgres://db/notes''), Cursor, ExecuteSelect, Fetchall],
                   stdout := [Found 2]\<rparr>"

definition key_only_environ :: "string \<rightharpoonup> string" where
  "key_only_environ = [''OPENAI_API_KEY'' \<mapsto> ''sk-test'']"

definition example_environ :: "string \<rightharpoonup> string" where
  "example_environ = [''OPENAI_API_KEY'' \<mapsto> ''sk-test'', ''DATABASE_URL'' \<mapsto> ''postgres://db/notes'']"

definition example_dotenv :: "string \<rightharpoonup> string" where
  "example_dotenv = [''OPENAI_API_KEY'' \<mapsto> ''sk-file'', ''DATABASE_URL'' \<mapsto> ''postgres://file/notes'']"

section \<open>Properties\<close>

subsection \<open>Strings\<close>

lemma length_replace_newlines: "length (replace_newlines text) = length text"
  by (simp add: replace_newlines_def)

lemma newline_notin_replace_newlines: "newline \<notin> set (replace_newlines text)"
  by (auto simp: replace_newlines_def newline_def)

lemma length_truncated_text:
  "length (truncated_text ttl cnt) = min (length (py_str ttl) + 2 + length (py_str cnt)) 8000"
  by (simp add: truncated_text_def full_text_def min.commute add.commute)

lemma api_calls_get_embedding:
  "api_calls (fst (get_embedding orc text model w)) =
     api_calls w @ [([replace_newlines text], model)]"
  by (simp add: get_embedding_def Let_def split: sum.splits list.splits)

subsection \<open>The calls one by one\<close>

lemma print_fields:
  "committed (fst (print orc l w)) = committed w"
  "working (fst (print orc l w)) = working w"
  "db_calls (fst (print orc l w)) = db_calls w"
  "api_calls (fst (print orc l w)) = api_calls w"
  by (simp_all add: print_def split: option.splits)

lemma print_returned:
  "print orc l w = (w1, None) \<Longrightarrow> w1 = w\<lparr>stdout := stdout w @ [l]\<rparr>"
  by (auto simp: print_def split: option.splits)

lemma print_raised:
  "print orc l w = (w1, Some e) \<Longrightarrow> w1 = w"
  by (auto simp: print_def split: option.splits)

lemma rollback_fields:
  "committed (fst (rollback orc w)) = committed w"
  "api_calls (fst (rollback orc w)) = api_calls w"
  "stdout (fst (rollback orc w)) = stdout w"
  "db_calls (fst (rollback orc w)) = db_calls w @ [Rollback]"
  by (simp_all add: rollback_def Let_def split: option.splits)

lemma rollback_returned:
  "rollback orc w = (w1, None) \<Longrightarrow> working w1 = committed w1"
  by (auto simp: rollback_def Let_def split: option.splits)

lemma updated_ids_append: "updated_ids (xs @ ys) = updated_ids xs @ updated_ids ys"
  by (induction xs rule: updated_ids.induct) simp_all

subsection \<open>One iteration\<close>

lemma embed_and_persist_api_calls:
  "api_calls (fst (embed_and_persist orc w cand)) = api_calls w @ [request_of cand]"
  by (simp add: embed_and_persist_def get_embedding_def execute_update_def commit_def Let_def
      request_of_def split: sum.splits list.splits option.splits prod.splits)

lemma embed_and_persist_raised:
  assumes "embed_and_persist orc w cand = (w1, Some e)"
  shows "committed w1 = committed w \<and> stdout w1 = stdout w"
  using assms
  by (auto simp: embed_and_persist_def get_embedding_def execute_update_def commit_def Let_def
      split: sum.splits list.splits option.splits prod.splits)

lemma embed_and_persist_returned:
  assumes "embed_and_persist orc w (nid, ttl, cnt) = (w1, None)"
  shows "\<exists>emb ds.
     provider orc (length (api_calls w)) [replace_newlines (truncated_text ttl cnt)] default_model
       = Inr (emb # ds) \<and>
     execute_exn orc (length (db_calls w)) = None \<and>
     commit_exn orc (Suc (length (db_calls w))) = None \<and>
     w1 = w\<lparr>committed := map (set_embedding emb (clock orc (length (db_calls w))) nid) (working w),
            working := map (set_embedding emb (clock orc (length (db_calls w))) nid) (working w),
            db_calls := db_calls w @ [ExecuteUpdate emb nid, Commit],
            api_calls := api_calls w @ [([replace_newlines (truncated_text ttl cnt)], default_model)]\<rparr>"
  using assms
  by (auto simp: embed_and_persist_def get_embedding_def execute_update_def commit_def Let_def
      split: sum.splits list.splits option.splits prod.splits)

lemma embed_and_persist_succeeds:
  assumes "provider orc (length (api_calls w)) [replace_newlines (truncated_text ttl cnt)] default_model
             = Inr (emb # ds)"
    and "execute_exn orc (length (db_calls w)) = None"
    and "commit_exn orc (Suc (length (db_calls w))) = None"
  shows "embed_and_persist orc w (nid, ttl, cnt) =
     (w\<lparr>committed := map (set_embedding emb (clock orc (length (db_calls w))) nid) (working w),
        working := map (set_embedding emb (clock orc (length (db_calls w))) nid) (working w),
        db_calls := db_calls w @ [ExecuteUpdate emb nid, Commit],
        api_calls := api_calls w @ [([replace_newlines (truncated_text ttl cnt)], default_model)]\<rparr>,
      None)"
  using assms
  by (simp add: embed_and_persist_def get_embedding_def execute_update_def commit_def Let_def)

lemma embed_and_persist_db_calls:
  "\<exists>new. db_calls (fst (embed_and_persist orc w cand)) = db_calls w @ new \<and>
         set (updated_ids new) \<subseteq> {fst cand}"
  by (auto simp: embed_and_persist_def get_embedding_def execute_update_def commit_def Let_def
      split: sum.splits list.splits option.splits prod.splits)

lemma try_body_api_calls:
  "api_calls (fst (try_body orc w cand)) = api_calls w @ [request_of cand]"
  using embed_and_persist_api_calls [of orc w cand]
  by (cases "embed_and_persist orc w cand")
     (auto simp: try_body_def print_fields split: option.splits)

lemma try_body_returned:
  assumes "try_body orc w (nid, ttl, cnt) = (w1, None)"
  shows "\<exists>emb ds.
     provider orc (length (api_calls w)) [replace_newlines (truncated_text ttl cnt)] default_model
       = Inr (emb # ds) \<and>
     execute_exn orc (length (db_calls w)) = None \<and>
     commit_exn orc (Suc (length (db_calls w))) = None \<and>
     w1 = w\<lparr>committed := map (set_embedding emb (clock orc (length (db_calls w))) nid) (working w),
            working := map (set_embedding emb (clock orc (length (db_calls w))) nid) (working w),
            db_calls := db_calls w @ [ExecuteUpdate emb nid, Commit],
            api_calls := api_calls w @ [([replace_newlines (truncated_text ttl cnt)], default_model)],
            stdout := stdout w @ [Processed nid ttl]\<rparr>"
proof (cases "embed_and_persist orc w (nid, ttl, cnt)")
  case (Pair w0 x)
  with assms have x: "x = None" and p: "print orc (Processed nid ttl) w0 = (w1, None)"
    by (auto simp: try_body_def split: option.splits)
  from embed_and_persist_returned [of orc w nid ttl cnt w0] Pair x
  obtain emb ds where e: "provider orc (length (api_calls w))
        [replace_newlines (truncated_text ttl cnt)] default_model = Inr (emb # ds)"
      "execute_exn orc (length (db_calls w)) = None"
      "commit_exn orc (Suc (length (db_calls w))) = None"
      "w0 = w\<lparr>committed := map (set_embedding emb (clock orc (length (db_calls w))) nid) (working w),
            working := map (set_embedding emb (clock orc (length (db_calls w))) nid) (working w),
            db_calls := db_calls w @ [ExecuteUpdate emb nid, Commit],
            api_calls := api_calls w @ [([replace_newlines (truncated_text ttl cnt)], default_model)]\<rparr>"
    by blast
  from print_returned [OF p] e(4)
  have "w1 = w\<lparr>committed := map (set_embedding emb (clock orc (length (db_calls w))) nid) (working w),
            working := map (set_embedding emb (clock orc (length (db_calls w))) nid) (working w),
            db_calls := db_calls w @ [ExecuteUpdate emb nid, Commit],
            api_calls := api_calls w @ [([replace_newlines (truncated_text ttl cnt)], default_model)],
            stdout := stdout w @ [Processed nid ttl]\<rparr>"
    by simp
  with e(1-3) show ?thesis by blast
qed

lemma try_body_returned_committed:
  assumes "try_body orc w (nid, ttl, cnt) = (w1, None)"
  shows "\<exists>emb. committed w1 =
             map (set_embedding emb (clock orc (length (db_calls w))) nid) (working w) \<and>
           working w1 = committed w1 \<and>
           db_calls w1 = db_calls w @ [ExecuteUpdate emb nid, Commit] \<and>
           stdout w1 = stdout w @ [Processed nid ttl]"
proof -
  from try_body_returned [OF assms]
  obtain emb ds where w1: "w1 = w\<lparr>committed := map (set_embedding emb (clock orc (length (db_calls w))) nid) (working w),
            working := map (set_embedding emb (clock orc (length (db_calls w))) nid) (working w),
            db_calls := db_calls w @ [ExecuteUpdate emb nid, Commit],
            api_calls := api_calls w @ [([replace_newlines (truncated_text ttl cnt)], default_model)],
            stdout := stdout w @ [Processed nid ttl]\<rparr>"
    by blast
  show ?thesis
    by (rule exI [of _ emb]) (simp add: w1)
qed

text \<open>A body that raises has committed nothing, or the whole update of the record.\<close>

lemma try_body_raised:
  assumes "try_body orc w (nid, ttl, cnt) = (w1, Some e)"
  shows "committed w1 = committed w \<or>
         (\<exists>emb. committed w1 =
              map (set_embedding emb (clock orc (length (db_calls w))) nid) (working w) \<and>
            working w1 = committed w1 \<and>
            db_calls w1 = db_calls w @ [ExecuteUpdate emb nid, Commit])"
proof (cases "embed_and_persist orc w (nid, ttl, cnt)")
  case (Pair w0 x)
  show ?thesis
  proof (cases x)
    case None
    with Pair assms have p: "print orc (Processed nid ttl) w0 = (w1, Some e)"
      by (simp add: try_body_def)
    from embed_and_persist_returned [of orc w nid ttl cnt w0] Pair None
    obtain emb ds where "w0 = w\<lparr>committed := map (set_embedding emb (clock orc (length (db_calls w))) nid) (working w),
            working := map (set_embedding emb (clock orc (length (db_calls w))) nid) (working w),
            db_calls := db_calls w @ [ExecuteUpdate emb nid, Commit],
            api_calls := api_calls w @ [([replace_newlines (truncated_text ttl cnt)], default_model)]\<rparr>"
      by blast
    with print_raised [OF p]
    have "committed w1 = map (set_embedding emb (clock orc (length (db_calls w))) nid) (working w) \<and>
            working w1 = committed w1 \<and>
            db_calls w1 = db_calls w @ [ExecuteUpdate emb nid, Commit]"
      by simp
    then show ?thesis by blast
  next
    case (Some e')
    with Pair assms have "w1 = w0"
      by (simp add: try_body_def)
    with embed_and_persist_raised [of orc w "(nid, ttl, cnt)" w0 e'] Pair Some
    show ?thesis by simp
  qed
qed

lemma except_handler_fields:
  "committed (fst (except_handler orc nid e w)) = committed w"
  "api_calls (fst (except_handler orc nid e w)) = api_calls w"
  by (cases "print orc (ErrorProcessing nid e) w";
      auto simp: except_handler_def rollback_fields dest: print_returned print_raised
        split: option.splits)+

lemma except_handler_returned:
  assumes "except_handler orc nid e w = (w1, None)"
  shows "working w1 = committed w1"
  using assms
  by (cases "print orc (ErrorProcessing nid e) w")
     (auto simp: except_handler_def dest: rollback_returned split: option.splits)

lemma process_note_api_calls:
  "api_calls (fst (process_note orc w cand)) = api_calls w @ [request_of cand]"
  using try_body_api_calls [of orc w cand]
  by (cases "try_body orc w cand")
     (auto simp: process_note_def except_handler_fields split: option.splits)

lemma process_note_clean:
  assumes "process_note orc w cand = (w1, None)"
  shows "working w1 = committed w1"
proof (cases "try_body orc w cand")
  case (Pair w0 x)
  show ?thesis
  proof (cases x)
    case None
    obtain nid ttl cnt where "cand = (nid, ttl, cnt)"
      by (cases cand) auto
    with Pair None assms try_body_returned_committed [of orc w nid ttl cnt w0]
    show ?thesis by (auto simp: process_note_def)
  next
    case (Some e)
    with Pair assms show ?thesis
      by (auto simp: process_note_def dest: except_handler_returned)
  qed
qed

subsection \<open>What an iteration and the loop do to the table\<close>

lemma both_or_neither_refl: "both_or_neither r r"
  by (simp add: both_or_neither_def)

lemma both_or_neither_trans:
  assumes "both_or_neither r r'" and "both_or_neither r' r''"
  shows "both_or_neither r r''"
proof (cases "r'' = r'")
  case True
  with assms(1) show ?thesis by simp
next
  case False
  with assms(2) obtain emb t where r'': "r'' = r'\<lparr>embedding := Some emb, indexed_at := Some t\<rparr>"
    by (auto simp: both_or_neither_def)
  from assms(1) have "r'' = r\<lparr>embedding := Some emb, indexed_at := Some t\<rparr>"
    unfolding both_or_neither_def
  proof
    assume "r' = r"
    with r'' show ?thesis by simp
  next
    assume "\<exists>emb t. r' = r\<lparr>embedding := Some emb, indexed_at := Some t\<rparr>"
    with r'' show ?thesis by auto
  qed
  then show ?thesis
    unfolding both_or_neither_def by blast
qed

lemma touches_only_id: "touches_only S (\<lambda>r. r)"
  by (simp add: touches_only_def both_or_neither_refl)

lemma touches_only_set_embedding: "nid \<in> S \<Longrightarrow> touches_only S (set_embedding emb t nid)"
  by (auto simp: touches_only_def set_embedding_def both_or_neither_def)

lemma touches_only_comp:
  assumes "touches_only S f" and "touches_only S g"
  shows "touches_only S (g \<circ> f)"
  unfolding touches_only_def
proof (intro allI conjI impI)
  fix r
  show "note_id ((g \<circ> f) r) = note_id r"
    using assms by (simp add: touches_only_def)
  show "both_or_neither r ((g \<circ> f) r)"
    using assms both_or_neither_trans [of r "f r" "g (f r)"] by (simp add: touches_only_def)
  assume "note_id r \<notin> S"
  then show "(g \<circ> f) r = r"
    using assms by (simp add: touches_only_def)
qed

lemma touches_only_mono: "touches_only S f \<Longrightarrow> S \<subseteq> T \<Longrightarrow> touches_only T f"
  by (auto simp: touches_only_def)

lemma both_or_neither_map:
  assumes "touches_only S f"
  shows "list_all2 both_or_neither tbl (map f tbl)"
  using assms by (simp add: list_all2_map2 list_all2_same touches_only_def)

lemma try_body_frame:
  assumes "working w = committed w"
  shows "\<exists>f. touches_only {fst cand} f \<and> committed (fst (try_body orc w cand)) = map f (committed w)"
proof -
  obtain nid ttl cnt where cand: "cand = (nid, ttl, cnt)"
    by (cases cand) auto
  obtain w1 x where tb: "try_body orc w (nid, ttl, cnt) = (w1, x)"
    by (cases "try_body orc w (nid, ttl, cnt)") auto
  have "committed w1 = committed w \<or>
        (\<exists>emb. committed w1 =
           map (set_embedding emb (clock orc (length (db_calls w))) nid) (working w))"
  proof (cases x)
    case None
    with tb try_body_returned_committed [of orc w nid ttl cnt w1] show ?thesis by blast
  next
    case (Some e)
    with tb try_body_raised [of orc w nid ttl cnt w1 e] show ?thesis by blast
  qed
  then show ?thesis
  proof
    assume "committed w1 = committed w"
    with tb cand have "committed (fst (try_body orc w cand)) = map (\<lambda>r. r) (committed w)"
      by simp
    with touches_only_id show ?thesis by blast
  next
    assume "\<exists>emb. committed w1 =
           map (set_embedding emb (clock orc (length (db_calls w))) nid) (working w)"
    then obtain emb where "committed w1 =
           map (set_embedding emb (clock orc (length (db_calls w))) nid) (working w)"
      by blast
    with tb cand assms have "committed (fst (try_body orc w cand)) =
        map (set_embedding emb (clock orc (length (db_calls w))) nid) (committed w)"
      by simp
    moreover have "touches_only {fst cand} (set_embedding emb (clock orc (length (db_calls w))) nid)"
      using cand by (simp add: touches_only_set_embedding)
    ultimately show ?thesis by blast
  qed
qed

lemma process_note_committed:
  "committed (fst (process_note orc w cand)) = committed (fst (try_body orc w cand))"
  by (cases "try_body orc w cand")
     (auto simp: process_note_def except_handler_fields split: option.splits)

lemma process_note_frame:
  assumes "working w = committed w"
  shows "\<exists>f. touches_only {fst cand} f \<and>
             committed (fst (process_note orc w cand)) = map f (committed w)"
  using try_body_frame [OF assms, of cand orc] by (simp add: process_note_committed)

lemma process_loop_frame:
  assumes "working w = committed w"
  shows "\<exists>f. touches_only (fst ` set cands) f \<and>
             committed (fst (process_loop orc w cands)) = map f (committed w)"
  using assms
proof (induction cands arbitrary: w)
  case Nil
  have "committed (fst (process_loop orc w [])) = map (\<lambda>r. r) (committed w)" by simp
  with touches_only_id show ?case by blast
next
  case (Cons cand rest)
  obtain w1 x where pn: "process_note orc w cand = (w1, x)"
    by (cases "process_note orc w cand") auto
  from process_note_frame [OF Cons.prems, of cand orc] pn
  obtain f where f: "touches_only {fst cand} f" "committed w1 = map f (committed w)"
    by auto
  have f': "touches_only (fst ` set (cand # rest)) f"
    using touches_only_mono [OF f(1), of "fst ` set (cand # rest)"] by simp
  show ?case
  proof (cases x)
    case (Some e)
    with pn f(2) have "committed (fst (process_loop orc w (cand # rest))) = map f (committed w)"
      by simp
    with f' show ?thesis by blast
  next
    case None
    with pn have "working w1 = committed w1"
      by (simp add: process_note_clean)
    from Cons.IH [OF this]
    obtain g where g: "touches_only (fst ` set rest) g"
        "committed (fst (process_loop orc w1 rest)) = map g (committed w1)"
      by auto
    have "touches_only (fst ` set (cand # rest)) (g \<circ> f)"
      using touches_only_comp [OF f', of g]
        touches_only_mono [OF g(1), of "fst ` set (cand # rest)"]
      by auto
    moreover have "committed (fst (process_loop orc w (cand # rest))) = map (g \<circ> f) (committed w)"
      using pn None f(2) g(2) by simp
    ultimately show ?thesis by blast
  qed
qed

subsection \<open>The requests and the UPDATEs of the loop\<close>

lemma process_loop_api_calls:
  "\<exists>n \<le> length cands.
     api_calls (fst (process_loop orc w cands)) = api_calls w @ map request_of (take n cands) \<and>
     (snd (process_loop orc w cands) = None \<longrightarrow> n = length cands)"
proof (induction cands arbitrary: w)
  case Nil
  then show ?case by simp
next
  case (Cons cand rest)
  obtain w1 x where pn: "process_note orc w cand = (w1, x)"
    by (cases "process_note orc w cand") auto
  with process_note_api_calls [of orc w cand]
  have a: "api_calls w1 = api_calls w @ [request_of cand]"
    by simp
  show ?case
  proof (cases x)
    case (Some e)
    with pn have pl: "process_loop orc w (cand # rest) = (w1, Some e)"
      by simp
    have f1: "(1::nat) \<le> length (cand # rest)"
      by simp
    have f2: "api_calls (fst (process_loop orc w (cand # rest))) =
        api_calls w @ map request_of (take 1 (cand # rest))"
      unfolding pl using a by simp
    have f3: "snd (process_loop orc w (cand # rest)) = None \<longrightarrow>
        1 = length (cand # rest)"
      unfolding pl by simp
    from f1 f2 f3 show ?thesis
      by (intro exI [of _ 1] conjI) assumption+
  next
    case None
    with pn have pl: "process_loop orc w (cand # rest) = process_loop orc w1 rest"
      by simp
    from Cons.IH [of w1]
    obtain n where n: "n \<le> length rest"
        "api_calls (fst (process_loop orc w1 rest)) = api_calls w1 @ map request_of (take n rest)"
        "snd (process_loop orc w1 rest) = None \<longrightarrow> n = length rest"
      by (elim exE conjE) (rule that)
    have f1: "Suc n \<le> length (cand # rest)"
      using n(1) by simp
    have f2: "api_calls (fst (process_loop orc w (cand # rest))) =
        api_calls w @ map request_of (take (Suc n) (cand # rest))"
      unfolding pl n(2) a by simp
    have f3: "snd (process_loop orc w (cand # rest)) = None \<longrightarrow>
        Suc n = length (cand # rest)"
      unfolding pl using n(3) by simp
    from f1 f2 f3 show ?thesis
      by (intro exI [of _ "Suc n"] conjI) assumption+
  qed
qed

lemma process_note_db_calls:
  "\<exists>new. db_calls (fst (process_note orc w cand)) = db_calls w @ new \<and>
         set (updated_ids new) \<subseteq> {fst cand}"
proof -
  from embed_and_persist_db_calls [of orc w cand]
  obtain new where new: "db_calls (fst (embed_and_persist orc w cand)) = db_calls w @ new"
      "set (updated_ids new) \<subseteq> {fst cand}"
    by blast
  have tb: "db_calls (fst (try_body orc w cand)) = db_calls w @ new"
    using new(1)
    by (cases "embed_and_persist orc w cand")
       (auto simp: try_body_def print_fields split: option.splits)
  have "db_calls (fst (process_note orc w cand)) = db_calls w @ new \<or>
        db_calls (fst (process_note orc w cand)) = db_calls w @ new @ [Rollback]"
    using tb
    by (cases "try_body orc w cand")
       (auto simp: process_note_def except_handler_def print_fields rollback_fields
          dest: print_returned print_raised split: option.splits prod.splits)
  then show ?thesis
  proof
    assume "db_calls (fst (process_note orc w cand)) = db_calls w @ new"
    with new(2) show ?thesis by blast
  next
    assume "db_calls (fst (process_note orc w cand)) = db_calls w @ new @ [Rollback]"
    moreover have "set (updated_ids (new @ [Rollback])) \<subseteq> {fst cand}"
      using new(2) by (simp add: updated_ids_append)
    ultimately show ?thesis by blast
  qed
qed

lemma process_loop_db_calls:
  "\<exists>new. db_calls (fst (process_loop orc w cands)) = db_calls w @ new \<and>
         set (updated_ids new) \<subseteq> fst ` set cands"
proof (induction cands arbitrary: w)
  case Nil
  then show ?case by simp
next
  case (Cons cand rest)
  obtain w1 x where pn: "process_note orc w cand = (w1, x)"
    by (cases "process_note orc w cand") auto
  from process_note_db_calls [of orc w cand] pn
  obtain new where new: "db_calls w1 = db_calls w @ new" "set (updated_ids new) \<subseteq> {fst cand}"
    by auto
  show ?case
  proof (cases x)
    case (Some e)
    with pn new(1) have "db_calls (fst (process_loop orc w (cand # rest))) = db_calls w @ new"
      by simp
    moreover from new(2) have "set (updated_ids new) \<subseteq> fst ` set (cand # rest)"
      by auto
    ultimately show ?thesis by blast
  next
    case None
    from Cons.IH [of w1]
    obtain more where more: "db_calls (fst (process_loop orc w1 rest)) = db_calls w1 @ more"
        "set (updated_ids more) \<subseteq> fst ` set rest"
      by blast
    with pn None new(1)
    have "db_calls (fst (process_loop orc w (cand # rest))) = db_calls w @ (new @ more)"
      by simp
    moreover from new(2) more(2) have "set (updated_ids (new @ more)) \<subseteq> fst ` set (cand # rest)"
      by (auto simp: updated_ids_append)
    ultimately show ?thesis by blast
  qed
qed

subsection \<open>The whole of \<^verbatim>\<open>process_notes\<close>\<close>

lemma finish_fields:
  "committed (fst (finish orc w)) = committed w"
  "api_calls (fst (finish orc w)) = api_calls w"
  "\<exists>new. db_calls (fst (finish orc w)) = db_calls w @ new \<and> updated_ids new = []"
  by (auto simp: finish_def cur_close_def conn_close_def print_def split: option.splits)

lemma process_notes_connect_raises:
  assumes "connect_exn orc url = Some e"
  shows "process_notes orc url w = (w\<lparr>db_calls := db_calls w @ [Connect url]\<rparr>, Raised e)"
  using assms by (simp add: process_notes_def connect_def)

text \<open>
  Either a statement before the loop raises, with the table, the requests and the output
  as they were and no UPDATE made, or the loop runs over the candidates of the table.
\<close>

lemma process_notes_shape:
  "(\<exists>w1 e new. process_notes orc url w = (w1, Raised e) \<and> committed w1 = committed w \<and>
       api_calls w1 = api_calls w \<and> stdout w1 = stdout w \<and>
       db_calls w1 = db_calls w @ new \<and> updated_ids new = []) \<or>
   process_notes orc url w =
     (case process_loop orc (loop_entry url w) (select_candidates (committed w)) of
        (w6, Some e) \<Rightarrow> (w6, Raised e)
      | (w6, None) \<Rightarrow> finish orc w6)"
proof -
  let ?early = "\<exists>w1 e new. process_notes orc url w = (w1, Raised e) \<and> committed w1 = committed w \<and>
       api_calls w1 = api_calls w \<and> stdout w1 = stdout w \<and>
       db_calls w1 = db_calls w @ new \<and> updated_ids new = []"
  have early: ?early
    if "process_notes orc url w = (w\<lparr>working := wk, db_calls := db_calls w @ new\<rparr>, Raised e)"
      and "updated_ids new = []" for wk new e
    using that by (intro exI [of _ "w\<lparr>working := wk, db_calls := db_calls w @ new\<rparr>"]
        exI [of _ e] exI [of _ new]) simp
  show ?thesis
  proof (cases "connect_exn orc url")
    case (Some e)
    have "process_notes orc url w =
        (w\<lparr>working := working w, db_calls := db_calls w @ [Connect url]\<rparr>, Raised e)"
      using Some by (simp add: process_notes_def connect_def)
    from early [OF this] show ?thesis by simp
  next
    case opened: None
    show ?thesis
    proof (cases "cursor_exn orc (Suc (length (db_calls w)))")
      case (Some e)
      have "process_notes orc url w =
          (w\<lparr>working := committed w, db_calls := db_calls w @ [Connect url, Cursor]\<rparr>, Raised e)"
        using opened Some by (simp add: process_notes_def connect_def cursor_def)
      from early [OF this] show ?thesis by simp
    next
      case cur: None
      show ?thesis
      proof (cases "execute_exn orc (Suc (Suc (length (db_calls w))))")
        case (Some e)
        have "process_notes orc url w =
            (w\<lparr>working := committed w,
               db_calls := db_calls w @ [Connect url, Cursor, ExecuteSelect]\<rparr>, Raised e)"
          using opened cur Some
          by (simp add: process_notes_def connect_def cursor_def execute_select_def)
        from early [OF this] show ?thesis by simp
      next
        case sel: None
        show ?thesis
        proof (cases "fetchall_exn orc (Suc (Suc (Suc (length (db_calls w)))))")
          case (Some e)
          have "process_notes orc url w =
              (w\<lparr>working := committed w,
                 db_calls := db_calls w @ [Connect url, Cursor, ExecuteSelect, Fetchall]\<rparr>,
               Raised e)"
            using opened cur sel Some
            by (simp add: process_notes_def connect_def cursor_def execute_select_def
                fetchall_def)
          from early [OF this] show ?thesis by simp
        next
          case fetched: None
          show ?thesis
          proof (cases "print_exn orc (length (stdout w))
              (Found (length (select_candidates (committed w))))")
            case (Some e)
            have "process_notes orc url w =
                (w\<lparr>working := committed w,
                   db_calls := db_calls w @ [Connect url, Cursor, ExecuteSelect, Fetchall]\<rparr>,
                 Raised e)"
              using opened cur sel fetched Some
              by (simp add: process_notes_def connect_def cursor_def execute_select_def
                  fetchall_def print_def)
            from early [OF this] show ?thesis by simp
          next
            case None
            with opened cur sel fetched
            have "process_notes orc url w =
               (case process_loop orc (loop_entry url w) (select_candidates (committed w)) of
                  (w6, Some e) \<Rightarrow> (w6, Raised e)
                | (w6, None) \<Rightarrow> finish orc w6)"
              by (simp add: process_notes_def connect_def cursor_def execute_select_def
                  fetchall_def print_def loop_entry_def)
            then show ?thesis by simp
          qed
        qed
      qed
    qed
  qed
qed

lemma process_notes_enters_loop:
  assumes "connect_exn orc url = None"
    and "cursor_exn orc (Suc (length (db_calls w))) = None"
    and "execute_exn orc (Suc (Suc (length (db_calls w)))) = None"
    and "fetchall_exn orc (Suc (Suc (Suc (length (db_calls w))))) = None"
    and "print_exn orc (length (stdout w)) (Found (length (select_candidates (committed w)))) = None"
  shows "process_notes orc url w =
     (case process_loop orc (loop_entry url w) (select_candidates (committed w)) of
        (w6, Some e) \<Rightarrow> (w6, Raised e)
      | (w6, None) \<Rightarrow> finish orc w6)"
  using assms
  by (simp add: process_notes_def connect_def cursor_def execute_select_def fetchall_def
      print_def loop_entry_def)

lemma loop_entry_fields:
  "committed (loop_entry url w) = committed w"
  "working (loop_entry url w) = committed w"
  "api_calls (loop_entry url w) = api_calls w"
  "db_calls (loop_entry url w) = db_calls w @ [Connect url, Cursor, ExecuteSelect, Fetchall]"
  by (simp_all add: loop_entry_def)

lemma after_loop_fields:
  "committed (fst (case r of (w6, Some e) \<Rightarrow> (w6, Raised e) | (w6, None) \<Rightarrow> finish orc w6)) =
     committed (fst r)"
  "api_calls (fst (case r of (w6, Some e) \<Rightarrow> (w6, Raised e) | (w6, None) \<Rightarrow> finish orc w6)) =
     api_calls (fst r)"
  "\<exists>new. db_calls (fst (case r of (w6, Some e) \<Rightarrow> (w6, Raised e) | (w6, None) \<Rightarrow> finish orc w6)) =
     db_calls (fst r) @ new \<and> updated_ids new = []"
  "snd (case r of (w6, Some e) \<Rightarrow> (w6, Raised e) | (w6, None) \<Rightarrow> finish orc w6) = Returned \<longrightarrow>
     snd r = None"
  using finish_fields [where orc = orc and w = "fst r"]
  by (cases r; cases "snd r"; auto)+

lemma process_notes_frame:
  "\<exists>f. touches_only (fst ` set (select_candidates (committed w))) f \<and>
       committed (fst (process_notes orc url w)) = map f (committed w)"
  using process_notes_shape [of orc url w]
proof
  assume "\<exists>w1 e new. process_notes orc url w = (w1, Raised e) \<and> committed w1 = committed w \<and>
       api_calls w1 = api_calls w \<and> stdout w1 = stdout w \<and>
       db_calls w1 = db_calls w @ new \<and> updated_ids new = []"
  then have "committed (fst (process_notes orc url w)) = map (\<lambda>r. r) (committed w)"
    by auto
  with touches_only_id show ?thesis by blast
next
  assume "process_notes orc url w =
     (case process_loop orc (loop_entry url w) (select_candidates (committed w)) of
        (w6, Some e) \<Rightarrow> (w6, Raised e)
      | (w6, None) \<Rightarrow> finish orc w6)"
  then have "committed (fst (process_notes orc url w)) =
      committed (fst (process_loop orc (loop_entry url w) (select_candidates (committed w))))"
    by (simp only: after_loop_fields)
  moreover have "working (loop_entry url w) = committed (loop_entry url w)"
    by (simp add: loop_entry_fields)
  from process_loop_frame [OF this, of "select_candidates (committed w)" orc]
  obtain f where "touches_only (fst ` set (select_candidates (committed w))) f"
    "committed (fst (process_loop orc (loop_entry url w) (select_candidates (committed w)))) =
       map f (committed w)"
    by (auto simp: loop_entry_fields)
  ultimately show ?thesis by auto
qed

lemma process_notes_api_calls:
  "\<exists>n \<le> length (select_candidates (committed w)).
     api_calls (fst (process_notes orc url w)) =
       api_calls w @ map request_of (take n (select_candidates (committed w))) \<and>
     (snd (process_notes orc url w) = Returned \<longrightarrow> n = length (select_candidates (committed w)))"
  using process_notes_shape [of orc url w]
proof
  assume "\<exists>w1 e new. process_notes orc url w = (w1, Raised e) \<and> committed w1 = committed w \<and>
       api_calls w1 = api_calls w \<and> stdout w1 = stdout w \<and>
       db_calls w1 = db_calls w @ new \<and> updated_ids new = []"
  then have "api_calls (fst (process_notes orc url w)) =
       api_calls w @ map request_of (take 0 (select_candidates (committed w)))"
    "snd (process_notes orc url w) \<noteq> Returned"
    by auto
  then show ?thesis
    by (intro exI [of _ 0]) simp
next
  let ?cands = "select_candidates (committed w)"
  let ?loop = "process_loop orc (loop_entry url w) ?cands"
  assume shape: "process_notes orc url w =
     (case ?loop of (w6, Some e) \<Rightarrow> (w6, Raised e) | (w6, None) \<Rightarrow> finish orc w6)"
  from process_loop_api_calls [of ?cands orc "loop_entry url w"]
  obtain n where n: "n \<le> length ?cands"
      "api_calls (fst ?loop) = api_calls (loop_entry url w) @ map request_of (take n ?cands)"
      "snd ?loop = None \<longrightarrow> n = length ?cands"
    by (elim exE conjE) (rule that)
  have f2: "api_calls (fst (process_notes orc url w)) =
       api_calls w @ map request_of (take n ?cands)"
    unfolding shape after_loop_fields n(2) by (simp add: loop_entry_fields)
  have f3: "snd (process_notes orc url w) = Returned \<longrightarrow> n = length ?cands"
  proof
    assume "snd (process_notes orc url w) = Returned"
    then have "snd ?loop = None"
      unfolding shape by (rule after_loop_fields(4) [THEN mp])
    with n(3) show "n = length ?cands" by simp
  qed
  from n(1) f2 f3 show ?thesis
    by (intro exI [of _ n] conjI) assumption+
qed

lemma process_notes_db_calls:
  "\<exists>new. db_calls (fst (process_notes orc url w)) = db_calls w @ new \<and>
         set (updated_ids new) \<subseteq> fst ` set (select_candidates (committed w))"
  using process_notes_shape [of orc url w]
proof
  assume "\<exists>w1 e new. process_notes orc url w = (w1, Raised e) \<and> committed w1 = committed w \<and>
       api_calls w1 = api_calls w \<and> stdout w1 = stdout w \<and>
       db_calls w1 = db_calls w @ new \<and> updated_ids new = []"
  then obtain new where "db_calls (fst (process_notes orc url w)) = db_calls w @ new"
    "updated_ids new = []"
    by auto
  then show ?thesis
    by (intro exI [of _ new]) simp
next
  let ?cands = "select_candidates (committed w)"
  let ?loop = "process_loop orc (loop_entry url w) ?cands"
  assume shape: "process_notes orc url w =
     (case ?loop of (w6, Some e) \<Rightarrow> (w6, Raised e) | (w6, None) \<Rightarrow> finish orc w6)"
  from process_loop_db_calls [of orc "loop_entry url w" ?cands]
  obtain new where new: "db_calls (fst ?loop) = db_calls (loop_entry url w) @ new"
      "set (updated_ids new) \<subseteq> fst ` set ?cands"
    by blast
  from after_loop_fields(3) [where r = "?loop" and orc = orc]
  obtain tail where tail: "db_calls (fst (process_notes orc url w)) = db_calls (fst ?loop) @ tail"
      "updated_ids tail = []"
    unfolding shape by blast
  have "db_calls (fst (process_notes orc url w)) =
      db_calls w @ ([Connect url, Cursor, ExecuteSelect, Fetchall] @ new @ tail)"
    by (simp add: tail(1) new(1) loop_entry_fields)
  moreover have "set (updated_ids ([Connect url, Cursor, ExecuteSelect, Fetchall] @ new @ tail))
      \<subseteq> fst ` set ?cands"
    using new(2) tail(2) by (simp add: updated_ids_append)
  ultimately show ?thesis by blast
qed

subsection \<open>The script\<close>

lemma run_script_without_key:
  assumes "\<not> truthy (load_dotenv dotenv environ ''OPENAI_API_KEY'')"
  shows "run_script orc dotenv environ w = (w, Raised (ValueError key_required))"
  using assms by (simp add: run_script_def Let_def)

lemma run_script_with_key:
  assumes "truthy (load_dotenv dotenv environ ''OPENAI_API_KEY'')"
  shows "run_script orc dotenv environ w =
           process_notes orc (load_dotenv dotenv environ ''DATABASE_URL'') w"
  using assms by (simp add: run_script_def Let_def)

lemma run_script_frame:
  "\<exists>f. touches_only (fst ` set (select_candidates (committed w))) f \<and>
       committed (fst (run_script orc dotenv environ w)) = map f (committed w)"
proof (cases "truthy (load_dotenv dotenv environ ''OPENAI_API_KEY'')")
  case True
  with process_notes_frame [of w orc "load_dotenv dotenv environ ''DATABASE_URL''"]
  show ?thesis by (simp add: run_script_with_key)
next
  case False
  then have "committed (fst (run_script orc dotenv environ w)) = map (\<lambda>r. r) (committed w)"
    by (simp add: run_script_without_key)
  with touches_only_id show ?thesis by blast
qed

lemma run_script_api_calls:
  "\<exists>n \<le> length (select_candidates (committed w)).
     api_calls (fst (run_script orc dotenv environ w)) =
       api_calls w @ map request_of (take n (select_candidates (committed w))) \<and>
     (snd (run_script orc dotenv environ w) = Returned \<longrightarrow>
        n = length (select_candidates (committed w)))"
proof (cases "truthy (load_dotenv dotenv environ ''OPENAI_API_KEY'')")
  case True
  with process_notes_api_calls [of w orc "load_dotenv dotenv environ ''DATABASE_URL''"]
  show ?thesis by (simp add: run_script_with_key)
next
  case False
  then have "run_script orc dotenv environ w = (w, Raised (ValueError key_required))"
    by (simp add: run_script_without_key)
  then show ?thesis
    by (intro exI [of _ 0]) simp
qed

lemma run_script_db_calls:
  "\<exists>new. db_calls (fst (run_script orc dotenv environ w)) = db_calls w @ new \<and>
         set (updated_ids new) \<subseteq> fst ` set (select_candidates (committed w))"
proof (cases "truthy (load_dotenv dotenv environ ''OPENAI_API_KEY'')")
  case True
  with process_notes_db_calls [of orc "load_dotenv dotenv environ ''DATABASE_URL''" w]
  show ?thesis by (simp add: run_script_with_key)
next
  case False
  then have "run_script orc dotenv environ w = (w, Raised (ValueError key_required))"
    by (simp add: run_script_without_key)
  then show ?thesis
    by (intro exI [of _ "[]"]) simp
qed

lemma selected_ids:
  assumes "distinct (map note_id tbl)" and "r \<in> set tbl"
  shows "(note_id r \<in> fst ` set (select_candidates tbl)) = (embedding r = None)"
proof
  assume "note_id r \<in> fst ` set (select_candidates tbl)"
  then obtain r' where r': "r' \<in> set tbl" "embedding r' = None" "note_id r' = note_id r"
    by (auto simp: select_candidates_def)
  from assms(1) have "inj_on note_id (set tbl)"
    by (simp add: distinct_map)
  with r' assms(2) have "r' = r"
    by (auto dest: inj_onD)
  with r' show "embedding r = None" by simp
next
  assume "embedding r = None"
  with assms(2) show "note_id r \<in> fst ` set (select_candidates tbl)"
    by (force simp: select_candidates_def)
qed

lemma except_handler_returns:
  assumes "print_exn orc (length (stdout w)) (ErrorProcessing nid e) = None"
    and "rollback_exn orc (length (db_calls w)) = None"
  shows "except_handler orc nid e w =
           (w\<lparr>working := committed w, db_calls := db_calls w @ [Rollback],
              stdout := stdout w @ [ErrorProcessing nid e]\<rparr>, None)"
  using assms by (simp add: except_handler_def print_def rollback_def Let_def)

lemma try_body_of_raising:
  assumes "embed_and_persist orc w cand = (w1, Some e)"
  shows "try_body orc w cand = (w1, Some e)"
  using assms by (simp add: try_body_def)

lemma process_note_returned:
  assumes "try_body orc w cand = (w1, None)"
  shows "process_note orc w cand = (w1, None)"
  using assms by (simp add: process_note_def)

lemma process_note_never_raises:
  assumes "handler_returns orc"
  shows "snd (process_note orc w cand) = None"
proof (cases "try_body orc w cand")
  case (Pair w1 x)
  show ?thesis
  proof (cases x)
    case None
    with Pair show ?thesis by (simp add: process_note_def)
  next
    case (Some e)
    from assms have "print_exn orc (length (stdout w1)) (ErrorProcessing (fst cand) e) = None"
      "rollback_exn orc (length (db_calls w1)) = None"
      by (simp_all add: handler_returns_def)
    with Pair Some show ?thesis
      by (simp add: process_note_def except_handler_returns)
  qed
qed

lemma process_loop_never_raises:
  assumes "handler_returns orc"
  shows "snd (process_loop orc w cands) = None"
proof (induction cands arbitrary: w)
  case Nil
  then show ?case by simp
next
  case (Cons cand rest)
  obtain w1 x where pn: "process_note orc w cand = (w1, x)"
    by (cases "process_note orc w cand") auto
  with process_note_never_raises [OF assms, of w cand] have "x = None"
    by simp
  with pn Cons.IH [of w1] show ?case
    by simp
qed

lemma finish_returns:
  assumes "\<forall>k. close_exn orc k = None" and "\<forall>k. print_exn orc k Finished = None"
  shows "finish orc w =
           (w\<lparr>db_calls := db_calls w @ [CursorClose, ConnClose], stdout := stdout w @ [Finished]\<rparr>,
            Returned)"
  using assms by (simp add: finish_def cur_close_def conn_close_def print_def)

lemma process_notes_returns:
  assumes "frame_returns orc url (length (db_calls w))" and "handler_returns orc"
  shows "snd (process_notes orc url w) = Returned \<and>
         last (stdout (fst (process_notes orc url w))) = Finished"
proof -
  let ?loop = "process_loop orc (loop_entry url w) (select_candidates (committed w))"
  obtain w6 where loop: "?loop = (w6, None)"
    using process_loop_never_raises [OF assms(2), of "loop_entry url w"
        "select_candidates (committed w)"]
    by (cases ?loop) auto
  from assms(1) have "process_notes orc url w =
      (case ?loop of (w6, Some e) \<Rightarrow> (w6, Raised e) | (w6, None) \<Rightarrow> finish orc w6)"
    by (intro process_notes_enters_loop) (simp_all add: frame_returns_def)
  with loop have "process_notes orc url w = finish orc w6"
    by simp
  moreover from assms(1) have "finish orc w6 =
      (w6\<lparr>db_calls := db_calls w6 @ [CursorClose, ConnClose], stdout := stdout w6 @ [Finished]\<rparr>,
       Returned)"
    by (intro finish_returns) (simp_all add: frame_returns_def)
  ultimately show ?thesis by simp
qed

lemma try_body_succeeds:
  assumes "provider orc (length (api_calls w)) [replace_newlines (truncated_text ttl cnt)] default_model
             = Inr (emb # ds)"
    and "execute_exn orc (length (db_calls w)) = None"
    and "commit_exn orc (Suc (length (db_calls w))) = None"
    and "print_exn orc (length (stdout w)) (Processed nid ttl) = None"
  shows "try_body orc w (nid, ttl, cnt) =
     (w\<lparr>committed := map (set_embedding emb (clock orc (length (db_calls w))) nid) (working w),
        working := map (set_embedding emb (clock orc (length (db_calls w))) nid) (working w),
        db_calls := db_calls w @ [ExecuteUpdate emb nid, Commit],
        api_calls := api_calls w @ [([replace_newlines (truncated_text ttl cnt)], default_model)],
        stdout := stdout w @ [Processed nid ttl]\<rparr>, None)"
  using embed_and_persist_succeeds [OF assms(1-3), of nid] assms(4)
  by (simp add: try_body_def print_def)

lemma committed_after_persisting:
  assumes "provider orc (length (api_calls w)) [replace_newlines (truncated_text ttl cnt)] default_model
             = Inr (emb # ds)"
    and "execute_exn orc (length (db_calls w)) = None"
    and "commit_exn orc (Suc (length (db_calls w))) = None"
  shows "committed (fst (process_note orc w (nid, ttl, cnt))) =
           map (set_embedding emb (clock orc (length (db_calls w))) nid) (working w)"
proof -
  have "committed (fst (try_body orc w (nid, ttl, cnt))) =
      committed (fst (embed_and_persist orc w (nid, ttl, cnt)))"
    by (cases "embed_and_persist orc w (nid, ttl, cnt)")
       (auto simp: try_body_def print_fields split: option.splits)
  then show ?thesis
    using embed_and_persist_succeeds [OF assms, of nid]
    by (simp add: process_note_committed)
qed

lemmas script_defs = run_script_def process_notes_def finish_def connect_def cursor_def
  execute_select_def fetchall_def select_candidates_def process_note_def try_body_def
  embed_and_persist_def get_embedding_def execute_update_def commit_def rollback_def
  except_handler_def print_def cur_close_def conn_close_def set_embedding_def load_dotenv_def
  truncated_text_def full_text_def replace_newlines_def newline_def default_model_def Let_def

lemmas example_defs = all_succeed_def first_update_fails_def session_lost_def needs_url_def
  example_dotenv_def example_environ_def key_only_environ_def example_world_def
  example_loop_entry_def example_rows_def

section \<open>The claims\<close>

text \<open>
  C1. The text handed to the embedding step is the title, two line feeds and the content,
  cut to the first 8000 characters; its length is the smaller of 8000 and the sum of the
  title's length, 2 and the content's length, so never more than 8000. A column is
  measured as the f-string renders it. The text that reaches the provider for the record
  has that same length.
\<close>

theorem request_text_truncated:
  "truncated_text ttl cnt = take 8000 (py_str ttl @ [newline, newline] @ py_str cnt) \<and>
   length (truncated_text ttl cnt) = min (length (py_str ttl) + 2 + length (py_str cnt)) 8000 \<and>
   length (truncated_text (Some t) (Some c)) = min (length t + 2 + length c) 8000 \<and>
   length (truncated_text ttl cnt) \<le> 8000 \<and>
   (\<exists>x. api_calls (fst (try_body orc w (nid, ttl, cnt))) = api_calls w @ [([x], default_model)] \<and>
        x = replace_newlines (truncated_text ttl cnt) \<and>
        length x = min (length (py_str ttl) + 2 + length (py_str cnt)) 8000)"
proof -
  have "truncated_text ttl cnt = take 8000 (py_str ttl @ [newline, newline] @ py_str cnt)"
    by (simp add: truncated_text_def full_text_def)
  moreover have "length (truncated_text (Some t) (Some c)) = min (length t + 2 + length c) 8000"
    using length_truncated_text [of "Some t" "Some c"] by simp
  moreover have "length (truncated_text ttl cnt) \<le> 8000"
    by (simp add: length_truncated_text)
  moreover have "api_calls (fst (try_body orc w (nid, ttl, cnt))) =
      api_calls w @ [([replace_newlines (truncated_text ttl cnt)], default_model)]"
    by (simp add: try_body_api_calls request_of_def)
  ultimately show ?thesis
    by (simp add: length_truncated_text length_replace_newlines)
qed

text \<open>
  C5. For every input text, \<^verbatim>\<open>get_embedding\<close> sends the provider one text: the
  input with every line feed replaced by one space and every other character kept in its
  place, so a text of the same length that contains no line feed. Every request made
  during a run of the script carries such a text, made from the truncated text of a
  candidate of the table.
\<close>

theorem provider_text_has_no_newline:
  "api_calls (fst (get_embedding orc text model w)) =
     api_calls w @ [([replace_newlines text], model)] \<and>
   replace_newlines text = map (\<lambda>c. if c = newline then CHR '' '' else c) text \<and>
   length (replace_newlines text) = length text \<and>
   (\<forall>i < length text.
      replace_newlines text ! i = (if text ! i = newline then CHR '' '' else text ! i)) \<and>
   newline \<notin> set (replace_newlines text) \<and>
   (\<exists>n \<le> length (select_candidates (committed w)).
      api_calls (fst (run_script orc dotenv environ w)) =
        api_calls w @
          map (\<lambda>(nid, ttl, cnt). ([replace_newlines (truncated_text ttl cnt)], default_model))
            (take n (select_candidates (committed w)))) \<and>
   (\<exists>new. api_calls (fst (run_script orc dotenv environ w)) = api_calls w @ new \<and>
        (\<forall>req \<in> set new. \<forall>x \<in> set (fst req). newline \<notin> set x))"
proof -
  have req: "\<forall>x \<in> set (fst (request_of cand)). newline \<notin> set x" for cand
    by (cases cand) (simp add: request_of_def newline_notin_replace_newlines)
  have shape: "request_of = (\<lambda>(nid, ttl, cnt). ([replace_newlines (truncated_text ttl cnt)], default_model))"
    by (rule ext) (simp add: request_of_def)
  from run_script_api_calls [of w orc dotenv environ]
  obtain n where n: "n \<le> length (select_candidates (committed w))"
      "api_calls (fst (run_script orc dotenv environ w)) =
         api_calls w @ map request_of (take n (select_candidates (committed w)))"
    by (elim exE conjE) (rule that)
  have run1: "\<exists>n \<le> length (select_candidates (committed w)).
      api_calls (fst (run_script orc dotenv environ w)) =
        api_calls w @
          map (\<lambda>(nid, ttl, cnt). ([replace_newlines (truncated_text ttl cnt)], default_model))
            (take n (select_candidates (committed w)))"
    using n unfolding shape by (intro exI [of _ n] conjI) assumption+
  have "\<forall>req \<in> set (map request_of (take n (select_candidates (committed w)))).
          \<forall>x \<in> set (fst req). newline \<notin> set x"
    using req by auto
  with n(2) have run2: "\<exists>new. api_calls (fst (run_script orc dotenv environ w)) = api_calls w @ new \<and>
        (\<forall>req \<in> set new. \<forall>x \<in> set (fst req). newline \<notin> set x)"
    by blast
  have pointwise: "\<forall>i < length text.
      replace_newlines text ! i = (if text ! i = newline then CHR '' '' else text ! i)"
    by (simp add: replace_newlines_def)
  from run1 run2 pointwise show ?thesis
    by (simp add: api_calls_get_embedding length_replace_newlines newline_notin_replace_newlines
        replace_newlines_def [symmetric])
qed

theorem provider_text_has_no_newline_witness:
  "api_calls (fst (run_script all_succeed example_dotenv example_environ example_world)) =
     [([''A  alpha''], ''text-embedding-3-small''), ([''B  None''], ''text-embedding-3-small'')] \<and>
   replace_newlines (truncated_text (Some ''A'') (Some ''alpha'')) = ''A  alpha'' \<and>
   newline \<notin> set ''A  alpha'' \<and> newline \<notin> set ''B  None''"
  using provider_text_has_no_newline
    [of all_succeed "truncated_text (Some ''A'') (Some ''alpha'')" "''m''" example_world
      example_dotenv example_environ]
  by (simp add: script_defs example_defs)

text \<open>
  C6. When the key is absent from the environment the script reads (after the file has
  been loaded), the script raises its ValueError and the world is as it was: no call has
  been made on the datastore driver and none on the provider.
\<close>

theorem missing_key_raises_before_any_call:
  assumes "load_dotenv dotenv environ ''OPENAI_API_KEY'' = None"
  shows "run_script orc dotenv environ w = (w, Raised (ValueError key_required)) \<and>
         db_calls (fst (run_script orc dotenv environ w)) = db_calls w \<and>
         api_calls (fst (run_script orc dotenv environ w)) = api_calls w"
  using assms by (simp add: run_script_without_key)

theorem missing_key_raises_before_any_call_witness:
  "load_dotenv Map.empty Map.empty ''OPENAI_API_KEY'' = None \<and>
   run_script all_succeed Map.empty Map.empty example_world =
     (example_world, Raised (ValueError ''OPENAI_API_KEY environment variable is required'')) \<and>
   db_calls (fst (run_script all_succeed Map.empty Map.empty example_world)) = []"
proof -
  have h: "load_dotenv Map.empty Map.empty ''OPENAI_API_KEY'' = None"
    by (simp add: load_dotenv_def)
  from missing_key_raises_before_any_call [OF h, of all_succeed example_world] h
  show ?thesis
    by (simp add: key_required_def example_world_def)
qed

text \<open>
  C8. Loading the file does not replace anything: a variable that the process environment
  sets keeps that value, the file supplies only the variables the environment lacks, and
  when the environment sets both variables the script runs as if there were no file.
\<close>

theorem dotenv_keeps_process_environment:
  "(environ k = Some v \<longrightarrow> load_dotenv dotenv environ k = Some v) \<and>
   (environ k = None \<longrightarrow> load_dotenv dotenv environ k = dotenv k) \<and>
   (environ ''OPENAI_API_KEY'' = Some key \<and> environ ''DATABASE_URL'' = Some url \<longrightarrow>
      run_script orc dotenv environ w = run_script orc Map.empty environ w)"
  by (simp add: load_dotenv_def run_script_def Let_def)

theorem dotenv_keeps_process_environment_witness:
  "example_environ ''DATABASE_URL'' = Some ''postgres://db/notes'' \<and>
   example_dotenv ''DATABASE_URL'' = Some ''postgres://file/notes'' \<and>
   load_dotenv example_dotenv example_environ ''DATABASE_URL'' = Some ''postgres://db/notes'' \<and>
   key_only_environ ''DATABASE_URL'' = None \<and>
   load_dotenv example_dotenv key_only_environ ''DATABASE_URL'' = Some ''postgres://file/notes''"
proof -
  have in_env: "example_environ ''DATABASE_URL'' = Some ''postgres://db/notes''"
    by (simp add: example_environ_def)
  have not_in_env: "key_only_environ ''DATABASE_URL'' = None"
    by (simp add: key_only_environ_def)
  have in_file: "example_dotenv ''DATABASE_URL'' = Some ''postgres://file/notes''"
    by (simp add: example_dotenv_def)
  from in_env dotenv_keeps_process_environment
      [of example_environ "''DATABASE_URL''" "''postgres://db/notes''" example_dotenv
        "''k''" "''u''" all_succeed example_world]
  have "load_dotenv example_dotenv example_environ ''DATABASE_URL'' = Some ''postgres://db/notes''"
    by blast
  moreover from not_in_env in_file dotenv_keeps_process_environment
      [of key_only_environ "''DATABASE_URL''" "''v''" example_dotenv
        "''k''" "''u''" all_succeed example_world]
  have "load_dotenv example_dotenv key_only_environ ''DATABASE_URL'' = Some ''postgres://file/notes''"
    by simp
  ultimately show ?thesis
    using in_env not_in_env in_file by simp
qed

text \<open>
  C10. When opening the connection raises, the exception leaves \<^verbatim>\<open>process_notes\<close>:
  the only driver call is the connect (no SELECT, no rollback, no close), nothing is
  printed, no request is made, the table is untouched, and the exit status is 1.
\<close>

theorem connect_failure_escapes:
  assumes "connect_exn orc url = Some e"
  shows "process_notes orc url w = (w\<lparr>db_calls := db_calls w @ [Connect url]\<rparr>, Raised e) \<and>
         db_calls (fst (process_notes orc url w)) = db_calls w @ [Connect url] \<and>
         stdout (fst (process_notes orc url w)) = stdout w \<and>
         api_calls (fst (process_notes orc url w)) = api_calls w \<and>
         committed (fst (process_notes orc url w)) = committed w \<and>
         exit_status (snd (process_notes orc url w)) = 1 \<and>
         (truthy (load_dotenv dotenv environ ''OPENAI_API_KEY'') \<and>
          load_dotenv dotenv environ ''DATABASE_URL'' = url \<longrightarrow>
            run_script orc dotenv environ w = (w\<lparr>db_calls := db_calls w @ [Connect url]\<rparr>, Raised e))"
  using assms by (auto simp: process_notes_connect_raises run_script_with_key)

theorem connect_failure_escapes_witness:
  "connect_exn needs_url None = Some (TypeError ''missing dsn and no parameters'') \<and>
   run_script needs_url Map.empty key_only_environ example_world =
     (example_world\<lparr>db_calls := [Connect None]\<rparr>,
      Raised (TypeError ''missing dsn and no parameters'')) \<and>
   exit_status (snd (process_notes needs_url None example_world)) = 1"
proof -
  have h: "connect_exn needs_url None = Some (TypeError ''missing dsn and no parameters'')"
    by (simp add: needs_url_def all_succeed_def)
  from connect_failure_escapes [OF h, of example_world Map.empty key_only_environ] h
  show ?thesis
    by (simp add: load_dotenv_def key_only_environ_def example_world_def)
qed

text \<open>
  C2. The SELECT returns exactly the rows whose embedding is NULL, and these are the
  records the run processes: once the statements before the loop have returned, the loop
  runs over the candidates of the table as it was committed at the start; the requests of
  a run are those of the candidates, in their order, all of them when the script returns;
  and every UPDATE of a run is addressed to the id of a candidate. With the identifier a
  key of the table (no two rows share an id), a row is among the candidates if and only if
  its embedding is NULL, and every row whose embedding is set when the script starts is,
  with all its columns, the same row when the script ends, whatever the outside does.
\<close>

theorem only_null_embedding_rows_selected:
  "select_candidates tbl =
     map (\<lambda>r. (note_id r, title r, content r)) (filter (\<lambda>r. embedding r = None) tbl) \<and>
   (distinct (map note_id tbl) \<longrightarrow>
      (\<forall>r \<in> set tbl. (note_id r \<in> fst ` set (select_candidates tbl)) = (embedding r = None))) \<and>
   (distinct (map note_id (committed w)) \<longrightarrow>
      list_all2 (\<lambda>r r'. embedding r \<noteq> None \<longrightarrow> r' = r)
        (committed w) (committed (fst (run_script orc dotenv environ w)))) \<and>
   (connect_exn orc url = None \<and> cursor_exn orc (Suc (length (db_calls w))) = None \<and>
    execute_exn orc (Suc (Suc (length (db_calls w)))) = None \<and>
    fetchall_exn orc (Suc (Suc (Suc (length (db_calls w))))) = None \<and>
    print_exn orc (length (stdout w)) (Found (length (select_candidates (committed w)))) = None \<longrightarrow>
      process_notes orc url w =
        (case process_loop orc (loop_entry url w) (select_candidates (committed w)) of
           (w6, Some e) \<Rightarrow> (w6, Raised e)
         | (w6, None) \<Rightarrow> finish orc w6)) \<and>
   (\<exists>n \<le> length (select_candidates (committed w)).
      api_calls (fst (run_script orc dotenv environ w)) =
        api_calls w @ map request_of (take n (select_candidates (committed w))) \<and>
      (snd (run_script orc dotenv environ w) = Returned \<longrightarrow>
         n = length (select_candidates (committed w)))) \<and>
   (\<exists>new. db_calls (fst (run_script orc dotenv environ w)) = db_calls w @ new \<and>
      set (updated_ids new) \<subseteq> fst ` set (select_candidates (committed w)))"
proof (intro conjI impI)
  show "select_candidates tbl =
     map (\<lambda>r. (note_id r, title r, content r)) (filter (\<lambda>r. embedding r = None) tbl)"
    by (simp add: select_candidates_def)
next
  assume "distinct (map note_id tbl)"
  then show "\<forall>r \<in> set tbl. (note_id r \<in> fst ` set (select_candidates tbl)) = (embedding r = None)"
    using selected_ids [of tbl] by blast
next
  assume d: "distinct (map note_id (committed w))"
  from run_script_frame [of w orc dotenv environ]
  obtain f where f: "touches_only (fst ` set (select_candidates (committed w))) f"
      "committed (fst (run_script orc dotenv environ w)) = map f (committed w)"
    by blast
  have "embedding r \<noteq> None \<longrightarrow> f r = r" if "r \<in> set (committed w)" for r
    using that f(1) selected_ids [OF d that] by (simp add: touches_only_def)
  then show "list_all2 (\<lambda>r r'. embedding r \<noteq> None \<longrightarrow> r' = r)
        (committed w) (committed (fst (run_script orc dotenv environ w)))"
    by (simp add: f(2) list_all2_map2 list_all2_same)
next
  assume "connect_exn orc url = None \<and> cursor_exn orc (Suc (length (db_calls w))) = None \<and>
    execute_exn orc (Suc (Suc (length (db_calls w)))) = None \<and>
    fetchall_exn orc (Suc (Suc (Suc (length (db_calls w))))) = None \<and>
    print_exn orc (length (stdout w)) (Found (length (select_candidates (committed w)))) = None"
  then show "process_notes orc url w =
        (case process_loop orc (loop_entry url w) (select_candidates (committed w)) of
           (w6, Some e) \<Rightarrow> (w6, Raised e)
         | (w6, None) \<Rightarrow> finish orc w6)"
    by (intro process_notes_enters_loop) simp_all
next
  show "\<exists>n \<le> length (select_candidates (committed w)).
      api_calls (fst (run_script orc dotenv environ w)) =
        api_calls w @ map request_of (take n (select_candidates (committed w))) \<and>
      (snd (run_script orc dotenv environ w) = Returned \<longrightarrow>
         n = length (select_candidates (committed w)))"
    by (rule run_script_api_calls)
next
  show "\<exists>new. db_calls (fst (run_script orc dotenv environ w)) = db_calls w @ new \<and>
      set (updated_ids new) \<subseteq> fst ` set (select_candidates (committed w))"
    by (rule run_script_db_calls)
qed

theorem only_null_embedding_rows_selected_witness:
  "distinct (map note_id example_rows) \<and>
   select_candidates example_rows = [(1, Some ''A'', Some ''alpha''), (2, Some ''B'', None)] \<and>
   snd (run_script all_succeed example_dotenv example_environ example_world) = Returned \<and>
   api_calls (fst (run_script all_succeed example_dotenv example_environ example_world)) =
     map request_of [(1, Some ''A'', Some ''alpha''), (2, Some ''B'', None)] \<and>
   updated_ids (db_calls (fst (run_script all_succeed example_dotenv example_environ example_world)))
     = [1, 2] \<and>
   committed (fst (run_script all_succeed example_dotenv example_environ example_world)) ! 2 =
     example_rows ! 2 \<and>
   embedding (example_rows ! 2) = Some [1, 2]"
proof -
  have d: "distinct (map note_id example_rows)"
    by (simp add: example_rows_def)
  have c: "committed example_world = example_rows" "api_calls example_world = []"
    by (simp_all add: example_world_def)
  note sel = only_null_embedding_rows_selected
      [of example_rows example_world all_succeed example_dotenv example_environ None]
  from sel have s: "select_candidates example_rows =
     map (\<lambda>r. (note_id r, title r, content r)) (filter (\<lambda>r. embedding r = None) example_rows)"
    by (elim conjE)
  have cands: "select_candidates example_rows = [(1, Some ''A'', Some ''alpha''), (2, Some ''B'', None)]"
    unfolding s by (simp add: example_rows_def)
  from sel d c(1)
  have la: "list_all2 (\<lambda>r r'. embedding r \<noteq> None \<longrightarrow> r' = r) example_rows
          (committed (fst (run_script all_succeed example_dotenv example_environ example_world)))"
    by simp
  from la have "embedding (example_rows ! 2) \<noteq> None \<longrightarrow>
      committed (fst (run_script all_succeed example_dotenv example_environ example_world)) ! 2 =
        example_rows ! 2"
    by (rule list_all2_nthD) (simp add: example_rows_def)
  moreover have e: "embedding (example_rows ! 2) = Some [1, 2]"
    by (simp add: example_rows_def)
  ultimately have kept: "committed (fst (run_script all_succeed example_dotenv example_environ
      example_world)) ! 2 = example_rows ! 2"
    by simp
  have ret: "snd (run_script all_succeed example_dotenv example_environ example_world) = Returned"
    by (simp add: script_defs example_defs)
  from sel obtain n where n: "n \<le> length (select_candidates (committed example_world))"
    "api_calls (fst (run_script all_succeed example_dotenv example_environ example_world)) =
        api_calls example_world @ map request_of (take n (select_candidates (committed example_world)))"
    "snd (run_script all_succeed example_dotenv example_environ example_world) = Returned \<longrightarrow>
         n = length (select_candidates (committed example_world))"
    by (elim conjE exE) (rule that)
  from n(3) ret have "n = length (select_candidates (committed example_world))"
    by simp
  with n(2) have api: "api_calls (fst (run_script all_succeed example_dotenv example_environ example_world)) =
     map request_of [(1, Some ''A'', Some ''alpha''), (2, Some ''B'', None)]"
    by (simp add: c cands)
  have upd: "updated_ids (db_calls (fst (run_script all_succeed example_dotenv example_environ
      example_world))) = [1, 2]"
    by (simp add: script_defs example_defs)
  from d cands ret api upd kept e show ?thesis
    by (intro conjI)
qed

text \<open>
  C3, as amended. When computing or persisting the embedding of a record raises (the
  provider call, the UPDATE or the commit) and the handler's own print and rollback
  return, the iteration prints the record's id with the exception and rolls back: the
  committed table is what it was before the record, so the record stays without
  embedding, and nothing is pending. The loop goes on with the rest of the candidates;
  the next one gets its request to the provider, and when its body returns it is
  committed on top of the unchanged table.
\<close>

theorem record_failure_is_isolated:
  assumes "embed_and_persist orc w (nid, ttl, cnt) = (w1, Some e)"
    and "print_exn orc (length (stdout w)) (ErrorProcessing nid e) = None"
    and "rollback_exn orc (length (db_calls w1)) = None"
  shows "(\<exists>wA. process_note orc w (nid, ttl, cnt) = (wA, None) \<and>
            stdout wA = stdout w @ [ErrorProcessing nid e] \<and>
            db_calls wA = db_calls w1 @ [Rollback] \<and>
            committed wA = committed w \<and>
            working wA = committed w \<and>
            process_loop orc w ((nid, ttl, cnt) # rest) = process_loop orc wA rest \<and>
            (\<forall>cand. api_calls (fst (process_note orc wA cand)) =
               api_calls w @ [request_of (nid, ttl, cnt), request_of cand]) \<and>
            (\<forall>nid' ttl' cnt' w2.
               try_body orc wA (nid', ttl', cnt') = (w2, None) \<longrightarrow>
                 process_loop orc w [(nid, ttl, cnt), (nid', ttl', cnt')] = (w2, None) \<and>
                 (\<exists>emb t. committed w2 = map (set_embedding emb t nid') (committed w))))"
proof -
  let ?wA = "w1\<lparr>working := committed w1, db_calls := db_calls w1 @ [Rollback],
              stdout := stdout w1 @ [ErrorProcessing nid e]\<rparr>"
  have kept: "committed w1 = committed w" "stdout w1 = stdout w"
    using embed_and_persist_raised [OF assms(1)] by simp_all
  have pn: "process_note orc w (nid, ttl, cnt) = (?wA, None)"
    using try_body_of_raising [OF assms(1)] assms(2,3) kept(2)
    by (simp add: process_note_def except_handler_returns)
  have out: "stdout ?wA = stdout w @ [ErrorProcessing nid e]"
    by (simp add: kept)
  have calls: "db_calls ?wA = db_calls w1 @ [Rollback]"
    by simp
  have com: "committed ?wA = committed w"
    by (simp add: kept)
  have wrk: "working ?wA = committed w"
    by (simp add: kept)
  have loop: "process_loop orc w ((nid, ttl, cnt) # rest) = process_loop orc ?wA rest" for rest
    using pn by simp
  have apiA: "api_calls ?wA = api_calls w @ [request_of (nid, ttl, cnt)]"
    using process_note_api_calls [of orc w "(nid, ttl, cnt)"] pn by simp
  have api: "api_calls (fst (process_note orc ?wA cand)) =
               api_calls w @ [request_of (nid, ttl, cnt), request_of cand]" for cand
    using process_note_api_calls [of orc ?wA cand] apiA by simp
  have later: "process_loop orc w [(nid, ttl, cnt), (nid', ttl', cnt')] = (w2, None) \<and>
              (\<exists>emb t. committed w2 = map (set_embedding emb t nid') (committed w))"
    if "try_body orc ?wA (nid', ttl', cnt') = (w2, None)" for nid' ttl' cnt' w2
  proof -
    from try_body_returned_committed [OF that]
    obtain emb where "committed w2 =
        map (set_embedding emb (clock orc (length (db_calls ?wA))) nid') (working ?wA)"
      by blast
    with wrk have "\<exists>emb t. committed w2 = map (set_embedding emb t nid') (committed w)"
      by auto
    moreover have "process_loop orc w [(nid, ttl, cnt), (nid', ttl', cnt')] = (w2, None)"
      using process_note_returned [OF that] pn by simp
    ultimately show ?thesis by blast
  qed
  show ?thesis
    using pn out calls com wrk loop api later
    by (intro exI [of _ ?wA] conjI allI impI) blast+
qed

theorem record_failure_is_isolated_witness:
  "embed_and_persist first_update_fails example_loop_entry (1, Some ''A'', Some ''alpha'') =
     (example_loop_entry
        \<lparr>db_calls := db_calls example_loop_entry @ [ExecuteUpdate [1 / 2, 1 / 4, 1 / 8] 1],
         api_calls := [([''A  alpha''], ''text-embedding-3-small'')]\<rparr>,
      Some (DriverError ''deadlock detected'')) \<and>
   stdout (fst (process_note first_update_fails example_loop_entry (1, Some ''A'', Some ''alpha''))) =
     [Found 2, ErrorProcessing 1 (DriverError ''deadlock detected'')] \<and>
   committed (fst (process_note first_update_fails example_loop_entry (1, Some ''A'', Some ''alpha''))) =
     example_rows \<and>
   snd (process_loop first_update_fails example_loop_entry
       [(1, Some ''A'', Some ''alpha''), (2, Some ''B'', None)]) = None \<and>
   committed (fst (process_loop first_update_fails example_loop_entry
       [(1, Some ''A'', Some ''alpha''), (2, Some ''B'', None)])) =
     [example_rows ! 0,
      (example_rows ! 1)\<lparr>embedding := Some [1 / 2, 1 / 4, 1 / 8], indexed_at := Some 106\<rparr>,
      example_rows ! 2]"
proof -
  have h: "embed_and_persist first_update_fails example_loop_entry (1, Some ''A'', Some ''alpha'') =
     (example_loop_entry
        \<lparr>db_calls := db_calls example_loop_entry @ [ExecuteUpdate [1 / 2, 1 / 4, 1 / 8] 1],
         api_calls := [([''A  alpha''], ''text-embedding-3-small'')]\<rparr>,
      Some (DriverError ''deadlock detected''))"
    by (simp add: script_defs example_defs)
  have p: "print_exn first_update_fails (length (stdout example_loop_entry))
      (ErrorProcessing 1 (DriverError ''deadlock detected'')) = None"
    by (simp add: example_defs)
  have r: "rollback_exn first_update_fails
      (length (db_calls (example_loop_entry
        \<lparr>db_calls := db_calls example_loop_entry @ [ExecuteUpdate [1 / 2, 1 / 4, 1 / 8] 1],
         api_calls := [([''A  alpha''], ''text-embedding-3-small'')]\<rparr>))) = None"
    by (simp add: example_defs)
  from record_failure_is_isolated [OF h p r, of "[]"]
  obtain wA where wA:
      "process_note first_update_fails example_loop_entry (1, Some ''A'', Some ''alpha'') = (wA, None)"
      "stdout wA = stdout example_loop_entry @ [ErrorProcessing 1 (DriverError ''deadlock detected'')]"
      "committed wA = committed example_loop_entry"
    by (elim exE conjE) (rule that)
  have s: "stdout (fst (process_note first_update_fails example_loop_entry
      (1, Some ''A'', Some ''alpha''))) = [Found 2, ErrorProcessing 1 (DriverError ''deadlock detected'')]"
    using wA(1,2) by (simp add: example_loop_entry_def)
  have c: "committed (fst (process_note first_update_fails example_loop_entry
      (1, Some ''A'', Some ''alpha''))) = example_rows"
    using wA(1,3) by (simp add: example_loop_entry_def example_world_def)
  have l: "process_loop first_update_fails example_loop_entry
       [(1, Some ''A'', Some ''alpha''), (2, Some ''B'', None)] =
     (example_loop_entry
        \<lparr>committed := [example_rows ! 0,
            (example_rows ! 1)\<lparr>embedding := Some [1 / 2, 1 / 4, 1 / 8], indexed_at := Some 106\<rparr>,
            example_rows ! 2],
         working := [example_rows ! 0,
            (example_rows ! 1)\<lparr>embedding := Some [1 / 2, 1 / 4, 1 / 8], indexed_at := Some 106\<rparr>,
            example_rows ! 2],
         db_calls := db_calls example_loop_entry @
            [ExecuteUpdate [1 / 2, 1 / 4, 1 / 8] 1, Rollback,
             ExecuteUpdate [1 / 2, 1 / 4, 1 / 8] 2, Commit],
         api_calls := [([''A  alpha''], ''text-embedding-3-small''),
                       ([''B  None''], ''text-embedding-3-small'')],
         stdout := [Found 2, ErrorProcessing 1 (DriverError ''deadlock detected''),
                    Processed 2 (Some ''B'')]\<rparr>, None)"
    by (simp add: script_defs example_defs)
  from h s c show ?thesis
    unfolding l by simp
qed

text \<open>
  As first stated, the claim promises that the loop goes on after any exception in
  computing or persisting an embedding. It fails where the session is lost: the UPDATE of
  record 1 raises, the handler prints and calls rollback, the rollback raises in its
  turn, and that exception leaves the loop and the script. Record 2 is never attempted
  (the only request is the one for record 1) and the exit status is 1.
\<close>

theorem lost_session_leaves_the_loop:
  "embed_and_persist session_lost example_loop_entry (1, Some ''A'', Some ''alpha'') =
     (example_loop_entry
        \<lparr>db_calls := db_calls example_loop_entry @ [ExecuteUpdate [1 / 2, 1 / 4, 1 / 8] 1],
         api_calls := [([''A  alpha''], ''text-embedding-3-small'')]\<rparr>,
      Some (DriverError ''server closed the connection unexpectedly'')) \<and>
   process_loop session_lost example_loop_entry
       [(1, Some ''A'', Some ''alpha''), (2, Some ''B'', None)] =
     (example_loop_entry
        \<lparr>db_calls := db_calls example_loop_entry @
            [ExecuteUpdate [1 / 2, 1 / 4, 1 / 8] 1, Rollback],
         api_calls := [([''A  alpha''], ''text-embedding-3-small'')],
         stdout := [Found 2,
            ErrorProcessing 1 (DriverError ''server closed the connection unexpectedly'')]\<rparr>,
      Some (DriverError ''connection already closed'')) \<and>
   api_calls (fst (run_script session_lost example_dotenv example_environ example_world)) =
     [([''A  alpha''], ''text-embedding-3-small'')] \<and>
   snd (run_script session_lost example_dotenv example_environ example_world) =
     Raised (DriverError ''connection already closed'') \<and>
   exit_status (snd (run_script session_lost example_dotenv example_environ example_world)) = 1"
  by (simp add: script_defs example_defs)

text \<open>
  C4. A record whose body returns has had one UPDATE addressed by its id and one commit,
  in that order and nothing else on the driver; the committed table is the old one with
  embedding and indexed_at set on the rows of that id, every other column and every other
  row as before. A body that raises has committed nothing or, when it is the print after
  the commit that raises, that same whole update. So after any number of iterations, and
  after the whole script, each committed row is either the row the run started from or
  that row with both columns set.
\<close>

theorem embedding_and_indexed_at_set_together:
  assumes "working w = committed w"
  shows "(\<forall>nid ttl cnt w1. try_body orc w (nid, ttl, cnt) = (w1, None) \<longrightarrow>
            (\<exists>emb t. db_calls w1 = db_calls w @ [ExecuteUpdate emb nid, Commit] \<and>
                     committed w1 = map (set_embedding emb t nid) (committed w) \<and>
                     working w1 = committed w1)) \<and>
         (\<forall>nid ttl cnt w1 e. try_body orc w (nid, ttl, cnt) = (w1, Some e) \<longrightarrow>
            committed w1 = committed w \<or>
            (\<exists>emb t. db_calls w1 = db_calls w @ [ExecuteUpdate emb nid, Commit] \<and>
                     committed w1 = map (set_embedding emb t nid) (committed w) \<and>
                     working w1 = committed w1)) \<and>
         (\<forall>cand w1 e. embed_and_persist orc w cand = (w1, Some e) \<longrightarrow> committed w1 = committed w) \<and>
         (\<forall>emb t nid r.
            set_embedding emb t nid r =
              (if note_id r = nid then r\<lparr>embedding := Some emb, indexed_at := Some t\<rparr> else r) \<and>
            note_id (set_embedding emb t nid r) = note_id r \<and>
            title (set_embedding emb t nid r) = title r \<and>
            content (set_embedding emb t nid r) = content r \<and>
            note_row.more (set_embedding emb t nid r) = note_row.more r) \<and>
         (\<forall>cands. list_all2 both_or_neither (committed w)
            (committed (fst (process_loop orc w cands)))) \<and>
         list_all2 both_or_neither (committed w)
           (committed (fst (run_script orc dotenv environ w)))"
proof (intro conjI allI impI)
  fix nid ttl cnt w1
  assume "try_body orc w (nid, ttl, cnt) = (w1, None)"
  from try_body_returned_committed [OF this] assms
  show "\<exists>emb t. db_calls w1 = db_calls w @ [ExecuteUpdate emb nid, Commit] \<and>
                 committed w1 = map (set_embedding emb t nid) (committed w) \<and>
                 working w1 = committed w1"
    by auto
next
  fix nid ttl cnt w1 e
  assume "try_body orc w (nid, ttl, cnt) = (w1, Some e)"
  from try_body_raised [OF this] assms
  show "committed w1 = committed w \<or>
            (\<exists>emb t. db_calls w1 = db_calls w @ [ExecuteUpdate emb nid, Commit] \<and>
                     committed w1 = map (set_embedding emb t nid) (committed w) \<and>
                     working w1 = committed w1)"
    by auto
next
  fix cand w1 e
  assume "embed_and_persist orc w cand = (w1, Some e)"
  then show "committed w1 = committed w"
    by (simp add: embed_and_persist_raised)
next
  fix cands
  from process_loop_frame [OF assms, of cands orc]
  show "list_all2 both_or_neither (committed w) (committed (fst (process_loop orc w cands)))"
    by (auto simp: both_or_neither_map)
next
  from run_script_frame [of w orc dotenv environ]
  show "list_all2 both_or_neither (committed w)
           (committed (fst (run_script orc dotenv environ w)))"
    by (auto simp: both_or_neither_map)
qed (simp_all add: set_embedding_def)

theorem embedding_and_indexed_at_set_together_witness:
  "working example_loop_entry = committed example_loop_entry \<and>
   db_calls (fst (try_body all_succeed example_loop_entry (1, Some ''A'', Some ''alpha''))) =
     db_calls example_loop_entry @ [ExecuteUpdate [1 / 2, 1 / 4, 1 / 8] 1, Commit] \<and>
   committed (fst (try_body all_succeed example_loop_entry (1, Some ''A'', Some ''alpha''))) =
     [(example_rows ! 0)\<lparr>embedding := Some [1 / 2, 1 / 4, 1 / 8], indexed_at := Some 104\<rparr>,
      example_rows ! 1, example_rows ! 2] \<and>
   list_all2 both_or_neither example_rows
     (committed (fst (run_script all_succeed example_dotenv example_environ example_loop_entry)))"
proof -
  have clean: "working example_loop_entry = committed example_loop_entry"
    by (simp add: example_loop_entry_def example_world_def)
  have rows: "committed example_loop_entry = example_rows"
    by (simp add: example_loop_entry_def example_world_def)
  note together = embedding_and_indexed_at_set_together
    [OF clean, of all_succeed example_dotenv example_environ]
  from together
  have "list_all2 both_or_neither (committed example_loop_entry)
     (committed (fst (run_script all_succeed example_dotenv example_environ example_loop_entry)))"
    by (elim conjE)
  with rows
  have "list_all2 both_or_neither example_rows
     (committed (fst (run_script all_succeed example_dotenv example_environ example_loop_entry)))"
    by simp
  moreover have "db_calls (fst (try_body all_succeed example_loop_entry (1, Some ''A'', Some ''alpha''))) =
     db_calls example_loop_entry @ [ExecuteUpdate [1 / 2, 1 / 4, 1 / 8] 1, Commit]"
    by (simp add: script_defs example_defs)
  moreover have "committed (fst (try_body all_succeed example_loop_entry (1, Some ''A'', Some ''alpha''))) =
     [(example_rows ! 0)\<lparr>embedding := Some [1 / 2, 1 / 4, 1 / 8], indexed_at := Some 104\<rparr>,
      example_rows ! 1, example_rows ! 2]"
    by (simp add: script_defs example_defs)
  ultimately show ?thesis
    using clean by simp
qed

text \<open>
  C7, as amended. Without the key the script ends on its ValueError with exit status 1.
  With the key, when the statements of \<^verbatim>\<open>process_notes\<close> outside the loop return
  (connect, cursor, the SELECT, fetchall, the two closes, the first and the last print)
  and the handler's own print and rollback return, the script returns with exit status 0
  and \<^verbatim>\<open>Finished\<close> as its last line, whatever the provider, the UPDATEs, the commits
  and the progress prints do for the single records.
\<close>

theorem exit_status_of_script:
  "(\<not> truthy (load_dotenv dotenv environ ''OPENAI_API_KEY'') \<longrightarrow>
      snd (run_script orc dotenv environ w) = Raised (ValueError key_required) \<and>
      exit_status (snd (run_script orc dotenv environ w)) = 1) \<and>
   (truthy (load_dotenv dotenv environ ''OPENAI_API_KEY'') \<and>
    frame_returns orc (load_dotenv dotenv environ ''DATABASE_URL'') (length (db_calls w)) \<and>
    handler_returns orc \<longrightarrow>
      snd (run_script orc dotenv environ w) = Returned \<and>
      exit_status (snd (run_script orc dotenv environ w)) = 0 \<and>
      last (stdout (fst (run_script orc dotenv environ w))) = Finished)"
proof (intro conjI impI)
  assume "\<not> truthy (load_dotenv dotenv environ ''OPENAI_API_KEY'')"
  then show "snd (run_script orc dotenv environ w) = Raised (ValueError key_required)"
    "exit_status (snd (run_script orc dotenv environ w)) = 1"
    by (simp_all add: run_script_without_key)
next
  assume h: "truthy (load_dotenv dotenv environ ''OPENAI_API_KEY'') \<and>
    frame_returns orc (load_dotenv dotenv environ ''DATABASE_URL'') (length (db_calls w)) \<and>
    handler_returns orc"
  then have r: "snd (run_script orc dotenv environ w) = Returned \<and>
      last (stdout (fst (run_script orc dotenv environ w))) = Finished"
    using process_notes_returns [of orc "load_dotenv dotenv environ ''DATABASE_URL''" w]
    by (simp add: run_script_with_key)
  from r show "snd (run_script orc dotenv environ w) = Returned" by simp
  from r show "exit_status (snd (run_script orc dotenv environ w)) = 0" by simp
  from r show "last (stdout (fst (run_script orc dotenv environ w))) = Finished" by simp
qed

theorem exit_status_of_script_witness:
  "\<not> truthy (load_dotenv Map.empty Map.empty ''OPENAI_API_KEY'') \<and>
   exit_status (snd (run_script all_succeed Map.empty Map.empty example_world)) = 1 \<and>
   truthy (load_dotenv example_dotenv example_environ ''OPENAI_API_KEY'') \<and>
   frame_returns first_update_fails (load_dotenv example_dotenv example_environ ''DATABASE_URL'')
     (length (db_calls example_world)) \<and>
   handler_returns first_update_fails \<and>
   stdout (fst (run_script first_update_fails example_dotenv example_environ example_world)) =
     [Found 2, ErrorProcessing 1 (DriverError ''deadlock detected''), Processed 2 (Some ''B''),
      Finished] \<and>
   exit_status (snd (run_script first_update_fails example_dotenv example_environ example_world)) = 0"
proof -
  have absent: "\<not> truthy (load_dotenv Map.empty Map.empty ''OPENAI_API_KEY'')"
    by (simp add: load_dotenv_def)
  have present: "truthy (load_dotenv example_dotenv example_environ ''OPENAI_API_KEY'')"
    by (simp add: load_dotenv_def example_environ_def)
  have outside: "frame_returns first_update_fails
      (load_dotenv example_dotenv example_environ ''DATABASE_URL'') (length (db_calls example_world))"
    by (simp add: frame_returns_def first_update_fails_def all_succeed_def example_world_def)
  have handler: "handler_returns first_update_fails"
    by (simp add: handler_returns_def first_update_fails_def all_succeed_def)
  from absent exit_status_of_script [of Map.empty Map.empty all_succeed example_world]
  have "exit_status (snd (run_script all_succeed Map.empty Map.empty example_world)) = 1"
    by blast
  moreover from present outside handler
    exit_status_of_script [of example_dotenv example_environ first_update_fails example_world]
  have "exit_status (snd (run_script first_update_fails example_dotenv example_environ example_world)) = 0"
    by blast
  moreover have "stdout (fst (run_script first_update_fails example_dotenv example_environ example_world)) =
     [Found 2, ErrorProcessing 1 (DriverError ''deadlock detected''), Processed 2 (Some ''B''),
      Finished]"
    by (simp add: script_defs example_defs)
  ultimately show ?thesis
    using absent present outside handler by simp
qed

text \<open>
  As first stated, the claim promises normal completion whenever the key is present. It
  fails where the key is set and \<^verbatim>\<open>DATABASE_URL\<close> is not: the connect raises, no
  handler is around it, and the exit status is 1.
\<close>

theorem key_present_yet_failure_status:
  "truthy (load_dotenv Map.empty key_only_environ ''OPENAI_API_KEY'') \<and>
   snd (run_script needs_url Map.empty key_only_environ example_world) =
     Raised (TypeError ''missing dsn and no parameters'') \<and>
   exit_status (snd (run_script needs_url Map.empty key_only_environ example_world)) = 1"
  by (simp add: script_defs example_defs)

text \<open>
  C9. A NULL title or content does not make the record fail. The f-string renders it as
  the four characters \<^verbatim>\<open>None\<close>, so a NULL content gives a text that ends in them (when
  the truncation does not reach that far), and that text goes to the provider. When the
  provider answers and the UPDATE and the commit run, the embedding is committed, for a
  record with a NULL column as for any other; and when the progress line is printed the
  body returns.
\<close>

theorem null_column_is_rendered_as_None:
  "py_str None = ''None'' \<and>
   truncated_text ttl None = take 8000 (py_str ttl @ [newline, newline] @ ''None'') \<and>
   truncated_text None cnt = take 8000 (''None'' @ [newline, newline] @ py_str cnt) \<and>
   (length (py_str ttl) \<le> 7994 \<longrightarrow>
      truncated_text ttl None = py_str ttl @ [newline, newline] @ ''None'') \<and>
   api_calls (fst (try_body orc w (nid, ttl, None))) =
     api_calls w @
       [([replace_newlines (take 8000 (py_str ttl @ [newline, newline] @ ''None''))], default_model)] \<and>
   api_calls (fst (try_body orc w (nid, None, cnt))) =
     api_calls w @
       [([replace_newlines (take 8000 (''None'' @ [newline, newline] @ py_str cnt))], default_model)] \<and>
   (\<forall>c. c = (nid, ttl, None) \<or> c = (nid, None, cnt) \<longrightarrow>
      provider orc (length (api_calls w)) (fst (request_of c)) default_model = Inr (emb # ds) \<and>
      execute_exn orc (length (db_calls w)) = None \<and>
      commit_exn orc (Suc (length (db_calls w))) = None \<longrightarrow>
        committed (fst (process_note orc w c)) =
          map (set_embedding emb (clock orc (length (db_calls w))) nid) (working w) \<and>
        (print_exn orc (length (stdout w)) (Processed nid (fst (snd c))) = None \<longrightarrow>
           snd (try_body orc w c) = None \<and>
           process_note orc w c = try_body orc w c \<and>
           stdout (fst (process_note orc w c)) = stdout w @ [Processed nid (fst (snd c))]))"
proof -
  have rendering: "truncated_text t c = take 8000 (py_str t @ [newline, newline] @ py_str c)" for t c
    by (simp add: truncated_text_def full_text_def)
  have ok: "committed (fst (process_note orc w (nid, t, c))) =
          map (set_embedding emb (clock orc (length (db_calls w))) nid) (working w) \<and>
        (print_exn orc (length (stdout w)) (Processed nid t) = None \<longrightarrow>
           snd (try_body orc w (nid, t, c)) = None \<and>
           process_note orc w (nid, t, c) = try_body orc w (nid, t, c) \<and>
           stdout (fst (process_note orc w (nid, t, c))) = stdout w @ [Processed nid t])"
    if "provider orc (length (api_calls w)) (fst (request_of (nid, t, c))) default_model = Inr (emb # ds)"
      and "execute_exn orc (length (db_calls w)) = None"
      and "commit_exn orc (Suc (length (db_calls w))) = None" for t c
  proof -
    from that(1) have p: "provider orc (length (api_calls w))
        [replace_newlines (truncated_text t c)] default_model = Inr (emb # ds)"
      by (simp add: request_of_def)
    have "committed (fst (process_note orc w (nid, t, c))) =
          map (set_embedding emb (clock orc (length (db_calls w))) nid) (working w)"
      by (rule committed_after_persisting [OF p that(2) that(3)])
    moreover have "snd (try_body orc w (nid, t, c)) = None \<and>
           process_note orc w (nid, t, c) = try_body orc w (nid, t, c) \<and>
           stdout (fst (process_note orc w (nid, t, c))) = stdout w @ [Processed nid t]"
      if "print_exn orc (length (stdout w)) (Processed nid t) = None"
      using try_body_succeeds [OF p \<open>execute_exn orc (length (db_calls w)) = None\<close>
          \<open>commit_exn orc (Suc (length (db_calls w))) = None\<close> that]
      by (simp add: process_note_def)
    ultimately show ?thesis by blast
  qed
  have short: "truncated_text ttl None = py_str ttl @ [newline, newline] @ ''None''"
    if "length (py_str ttl) \<le> 7994"
    using that by (simp add: rendering)
  have a1: "api_calls (fst (try_body orc w (nid, ttl, None))) =
     api_calls w @
       [([replace_newlines (take 8000 (py_str ttl @ [newline, newline] @ ''None''))], default_model)]"
    using try_body_api_calls [of orc w "(nid, ttl, None)"] rendering [of ttl None]
    by (simp add: request_of_def)
  have a2: "api_calls (fst (try_body orc w (nid, None, cnt))) =
     api_calls w @
       [([replace_newlines (take 8000 (''None'' @ [newline, newline] @ py_str cnt))], default_model)]"
    using try_body_api_calls [of orc w "(nid, None, cnt)"] rendering [of None cnt]
    by (simp add: request_of_def)
  show ?thesis
    using rendering [of ttl None] rendering [of None cnt] short a1 a2 ok [of ttl None] ok [of None cnt]
    by auto
qed

theorem null_column_is_rendered_as_None_witness:
  "length (py_str (Some ''B'')) \<le> 7994 \<and>
   truncated_text (Some ''B'') None = ''B'' @ [newline, newline] @ ''None'' \<and>
   api_calls (fst (try_body all_succeed example_loop_entry (2, Some ''B'', None))) =
     [([''B  None''], ''text-embedding-3-small'')] \<and>
   snd (try_body all_succeed example_loop_entry (2, Some ''B'', None)) = None \<and>
   committed (fst (process_note all_succeed example_loop_entry (2, Some ''B'', None))) =
     [example_rows ! 0,
      (example_rows ! 1)\<lparr>embedding := Some [1 / 2, 1 / 4, 1 / 8], indexed_at := Some 104\<rparr>,
      example_rows ! 2]"
proof -
  note rendered = null_column_is_rendered_as_None
    [of "Some ''B''" "None" all_succeed example_loop_entry 2 "[1 / 2, 1 / 4, 1 / 8]" "[]"]
  have short: "length (py_str (Some ''B'')) \<le> 7994"
    by simp
  have answered: "provider all_succeed (length (api_calls example_loop_entry))
      (fst (request_of (2, Some ''B'', None))) default_model = Inr [[1 / 2, 1 / 4, 1 / 8]]"
    by (simp add: all_succeed_def)
  have runs: "execute_exn all_succeed (length (db_calls example_loop_entry)) = None"
    "commit_exn all_succeed (Suc (length (db_calls example_loop_entry))) = None"
    "print_exn all_succeed (length (stdout example_loop_entry))
       (Processed 2 (fst (snd (2, Some ''B'', None)))) = None"
    by (simp_all add: all_succeed_def)
  from rendered short have t: "truncated_text (Some ''B'') None = ''B'' @ [newline, newline] @ ''None''"
    by simp
  from rendered answered runs
  have s: "snd (try_body all_succeed example_loop_entry (2, Some ''B'', None)) = None"
    by blast
  have a: "api_calls (fst (try_body all_succeed example_loop_entry (2, Some ''B'', None))) =
     [([''B  None''], ''text-embedding-3-small'')]"
    by (simp add: script_defs example_defs)
  have c: "committed (fst (process_note all_succeed example_loop_entry (2, Some ''B'', None))) =
     [example_rows ! 0,
      (example_rows ! 1)\<lparr>embedding := Some [1 / 2, 1 / 4, 1 / 8], indexed_at := Some 104\<rparr>,
      example_rows ! 2]"
    by (simp add: script_defs example_defs)
  from short t s a c show ?thesis by blast
qed

end
